theory Spec2Isabelle
  imports Complex_Main "HOL-Library.Word" "HOL-Library.Sublist" "HOL-Library.Monad_Syntax"
begin

section \<open>Data model of DPPreMainMonitor.h\<close>

text \<open>
  Machine integers are words: \<open>uint32_t\<close> is \<open>32 word\<close>, \<open>uint64_t\<close> and
  \<open>intptr_t\<close> are \<open>64 word\<close>, so \<open>+\<close>, \<open>-\<close> and \<open>*\<close> wrap as in C.
  A \<open>double\<close> is modelled by the real number it stands for: rounding of the
  floating-point operations is outside the model.
\<close>

type_synonym u32 = "32 word"
type_synonym u64 = "64 word"

text \<open>The two macros of the header.\<close>

definition DP_MAX_DYLIB_COUNT :: u32 where
  "DP_MAX_DYLIB_COUNT = 512"

definition DP_MAX_DYLIB_NAME_LENGTH :: nat where
  "DP_MAX_DYLIB_NAME_LENGTH = 256"

record DPDylibLoadInfo =
  name :: string
  loadMachTime :: u64
  loadDurationNanos :: u64
  isSystemLibrary :: bool
  slide :: "64 word"

record DPPreMainTimestamps =
  processStartTimeUnixMicros :: u64
  constructorMachTime :: u64
  firstDyldCallbackMachTime :: u64
  lastDyldCallbackMachTime :: u64
  mainExecutedMachTime :: u64
  objcLoadStartMachTime :: u64
  objcLoadEndMachTime :: u64

record DPPreMainDurations =
  totalPreMainMs :: real
  dylibLoadingMs :: real
  objcLoadMs :: real
  staticInitializerMs :: real
  postDyldToMainMs :: real
  estimatedKernelToConstructorMs :: real

record DPPreMainData =
  timestamps :: DPPreMainTimestamps
  durations :: DPPreMainDurations
  dylibCount :: u32
  systemDylibCount :: u32
  userDylibCount :: u32
  mainExecutedMarked :: bool
  dylibDetailEnabled :: bool
  timebaseNumer :: u32
  timebaseDenom :: u32

text \<open>What \<open>mach_timebase_info\<close> reports; it is the same for the whole process.\<close>

record mach_timebase_info_data_t =
  numer :: u32
  denom :: u32

section \<open>Time conversion\<close>

definition dp_initialize_timebase ::
  "mach_timebase_info_data_t \<Rightarrow> DPPreMainData \<Rightarrow> DPPreMainData" where
  "dp_initialize_timebase timebaseInfo d =
     d\<lparr>timebaseNumer := numer timebaseInfo, timebaseDenom := denom timebaseInfo\<rparr>"

text \<open>
  \<open>DPMachTimeToNanos\<close> initialises the timebase when the denominator is still zero,
  so it returns the data next to the result. The product is a \<open>uint64_t\<close> times a
  \<open>uint32_t\<close>, computed in 64 bits. A division by a denominator that is zero even
  after the initialisation is undefined in C: the model returns \<open>None\<close> there.
\<close>

definition DPMachTimeToNanos ::
  "mach_timebase_info_data_t \<Rightarrow> u64 \<Rightarrow> DPPreMainData \<Rightarrow> (u64 \<times> DPPreMainData) option" where
  "DPMachTimeToNanos timebaseInfo machTime d =
     (let d' = (if timebaseDenom d = 0 then dp_initialize_timebase timebaseInfo d else d)
      in if timebaseDenom d' = 0 then None
         else Some (machTime * ucast (timebaseNumer d') div ucast (timebaseDenom d'), d'))"

definition DPMachTimeToMillis ::
  "mach_timebase_info_data_t \<Rightarrow> u64 \<Rightarrow> DPPreMainData \<Rightarrow> (real \<times> DPPreMainData) option" where
  "DPMachTimeToMillis timebaseInfo machTime d =
     (case DPMachTimeToNanos timebaseInfo machTime d of
        None \<Rightarrow> None
      | Some (nanos, d') \<Rightarrow> Some (real (unat nanos) / 1000000, d'))"

section \<open>Process start time\<close>

text \<open>\<open>struct timeval\<close>: \<open>tv_sec\<close> is a 64-bit and \<open>tv_usec\<close> a 32-bit signed integer;
  the casts to \<open>uint64_t\<close> keep the bits, extending the sign of \<open>tv_usec\<close>.\<close>

record timeval =
  tv_sec :: "64 word"
  tv_usec :: "32 word"

definition timeval_micros :: "timeval \<Rightarrow> u64" where
  "timeval_micros tv = tv_sec tv * 1000000 + scast (tv_usec tv)"

text \<open>The argument is what \<open>sysctl\<close> delivers: \<open>None\<close> when the call fails.\<close>

definition dp_get_process_start_time_unix_micros :: "timeval option \<Rightarrow> u64" where
  "dp_get_process_start_time_unix_micros kinfo =
     (case kinfo of None \<Rightarrow> 0 | Some startTime \<Rightarrow> timeval_micros startTime)"

section \<open>C strings\<close>

text \<open>
  A C string is the list of its characters before the terminating NUL, a
  \<open>const char*\<close> that may be \<open>NULL\<close> is a \<open>string option\<close>, and a \<open>char\<close> array is
  the list of all its bytes. The functions of \<open>string.h\<close> are written out.
\<close>

definition NUL :: char where
  "NUL = CHR 0x00"

text \<open>\<open>strrchr\<close> points at the last occurrence: the model returns the rest of the string
  from there.\<close>

fun strrchr :: "string \<Rightarrow> char \<Rightarrow> string option" where
  "strrchr [] c = None"
| "strrchr (x # xs) c =
     (case strrchr xs c of
        Some r \<Rightarrow> Some r
      | None \<Rightarrow> if x = c then Some (x # xs) else None)"

text \<open>\<open>strncmp\<close> compares at most \<open>n\<close> characters; only the sign of the result is
  specified.\<close>

fun strncmp :: "string \<Rightarrow> string \<Rightarrow> nat \<Rightarrow> int" where
  "strncmp s1 s2 0 = 0"
| "strncmp [] [] (Suc n) = 0"
| "strncmp [] (b # s2) (Suc n) = - 1"
| "strncmp (a # s1) [] (Suc n) = 1"
| "strncmp (a # s1) (b # s2) (Suc n) =
     (if a = b then strncmp s1 s2 n
      else if (of_char a :: nat) < of_char b then - 1 else 1)"

text \<open>\<open>strncpy dst src n\<close> writes exactly \<open>n\<close> bytes: the characters of \<open>src\<close>, at most
  \<open>n\<close> of them, then NUL bytes up to \<open>n\<close>. The bytes of \<open>dst\<close> from \<open>n\<close> on stay.\<close>

definition strncpy :: "string \<Rightarrow> string \<Rightarrow> nat \<Rightarrow> string" where
  "strncpy dst src n = take n src @ replicate (n - length src) NUL @ drop n dst"

text \<open>What \<open>printf("%s")\<close> would read from a byte array: the bytes before the first NUL.\<close>

definition c_str :: "string \<Rightarrow> string" where
  "c_str bytes = takeWhile (\<lambda>c. c \<noteq> NUL) bytes"

section \<open>Path handling\<close>

definition dp_extract_filename :: "string option \<Rightarrow> string" where
  "dp_extract_filename path =
     (case path of
        None \<Rightarrow> ''unknown''
      | Some p \<Rightarrow>
          (case strrchr p CHR ''/'' of
             Some lastSlash \<Rightarrow> tl lastSlash
           | None \<Rightarrow> p))"

definition systemPrefixes :: "string list" where
  "systemPrefixes =
     [''/usr/lib/'', ''/System/'', ''/Library/Apple/'', ''/private/var/db/dyld/'',
      ''/AppleInternal/'']"

fun dp_is_system_library_loop :: "string \<Rightarrow> string list \<Rightarrow> bool" where
  "dp_is_system_library_loop path [] = False"
| "dp_is_system_library_loop path (p # ps) =
     (if strncmp path p (length p) = 0 then True
      else dp_is_system_library_loop path ps)"

definition dp_is_system_library :: "string option \<Rightarrow> bool" where
  "dp_is_system_library path =
     (case path of
        None \<Rightarrow> False
      | Some p \<Rightarrow> dp_is_system_library_loop p systemPrefixes)"

text \<open>The base filename in the words of the claim: the substring after the last
  \<open>'/'\<close> of the path, or the whole path if it contains no \<open>'/'\<close>. It is compared with
  \<open>dp_extract_filename\<close> below.\<close>

definition base_filename :: "string \<Rightarrow> string" where
  "base_filename path =
     (if CHR ''/'' \<in> set path then rev (takeWhile (\<lambda>c. c \<noteq> CHR ''/'') (rev path))
      else path)"

section \<open>Global state\<close>

text \<open>
  The four globals of DPPreMainMonitor.c that the operations read and write. The
  mutex is not modelled: every operation is one atomic step.
  \<open>g_dylibLoadInfos\<close> is declared with \<open>DP_MAX_DYLIB_COUNT\<close> slots; the operations read
  that capacity off the array (\<open>capacity\<close>), so that a ledger of another capacity can
  be stated. The program's own ledger is the one of \<open>g_static\<close>.
\<close>

record globals =
  g_preMainData :: DPPreMainData
  g_dylibLoadInfos :: "DPDylibLoadInfo list"
  g_dylibIndex :: u32
  g_initialized :: bool

definition capacity :: "globals \<Rightarrow> nat" where
  "capacity g = length (g_dylibLoadInfos g)"

definition zero_DPDylibLoadInfo :: DPDylibLoadInfo where
  "zero_DPDylibLoadInfo =
     \<lparr>name = replicate DP_MAX_DYLIB_NAME_LENGTH NUL, loadMachTime = 0,
      loadDurationNanos = 0, isSystemLibrary = False, slide = 0\<rparr>"

definition zero_DPPreMainTimestamps :: DPPreMainTimestamps where
  "zero_DPPreMainTimestamps =
     \<lparr>processStartTimeUnixMicros = 0, constructorMachTime = 0,
      firstDyldCallbackMachTime = 0, lastDyldCallbackMachTime = 0,
      mainExecutedMachTime = 0, objcLoadStartMachTime = 0, objcLoadEndMachTime = 0\<rparr>"

definition zero_DPPreMainDurations :: DPPreMainDurations where
  "zero_DPPreMainDurations =
     \<lparr>totalPreMainMs = 0, dylibLoadingMs = 0, objcLoadMs = 0, staticInitializerMs = 0,
      postDyldToMainMs = 0, estimatedKernelToConstructorMs = 0\<rparr>"

definition zero_DPPreMainData :: DPPreMainData where
  "zero_DPPreMainData =
     \<lparr>timestamps = zero_DPPreMainTimestamps, durations = zero_DPPreMainDurations,
      dylibCount = 0, systemDylibCount = 0, userDylibCount = 0,
      mainExecutedMarked = False, dylibDetailEnabled = False,
      timebaseNumer = 0, timebaseDenom = 0\<rparr>"

text \<open>The zero-initialised statics, for a ledger of \<open>n\<close> slots.\<close>

definition g_zero :: "nat \<Rightarrow> globals" where
  "g_zero n =
     \<lparr>g_preMainData = zero_DPPreMainData,
      g_dylibLoadInfos = replicate n zero_DPDylibLoadInfo,
      g_dylibIndex = 0, g_initialized = False\<rparr>"

definition g_static :: globals where
  "g_static = g_zero (unat DP_MAX_DYLIB_COUNT)"

text \<open>Every name array of the ledger has its 256 bytes and ends in NUL. The zeroed
  ledger has the property and every operation keeps it (shown below).\<close>

definition names_terminated :: "globals \<Rightarrow> bool" where
  "names_terminated g =
     list_all (\<lambda>r. length (name r) = DP_MAX_DYLIB_NAME_LENGTH \<and>
                    name r ! (DP_MAX_DYLIB_NAME_LENGTH - 1) = NUL)
       (g_dylibLoadInfos g)"

section \<open>The dyld callback\<close>

text \<open>
  \<open>currentMachTime\<close> is the reading of \<open>mach_absolute_time\<close>, \<open>imagePath\<close> what
  \<open>dladdr\<close> resolves for the image (\<open>None\<close> when it fails or has no file name).
\<close>

definition dp_dyld_image_added_callback ::
  "mach_timebase_info_data_t \<Rightarrow> u64 \<Rightarrow> string option \<Rightarrow> 64 word \<Rightarrow> globals
     \<Rightarrow> globals option" where
  "dp_dyld_image_added_callback tbi currentMachTime imagePath slide_arg g =
     (let d = g_preMainData g;
          ts = timestamps d;
          ts1 = (if firstDyldCallbackMachTime ts = 0
                 then ts\<lparr>firstDyldCallbackMachTime := currentMachTime\<rparr> else ts);
          ts2 = ts1\<lparr>lastDyldCallbackMachTime := currentMachTime\<rparr>;
          d1 = d\<lparr>timestamps := ts2\<rparr>;
          index = g_dylibIndex g
      in if \<not> dylibDetailEnabled d1
         then Some (g\<lparr>g_preMainData := d1, g_dylibIndex := index + 1\<rparr>)
         else if unat index \<ge> capacity g
         then Some (g\<lparr>g_preMainData := d1, g_dylibIndex := index + 1\<rparr>)
         else
           (case (if constructorMachTime ts2 > 0
                  then DPMachTimeToNanos tbi (currentMachTime - constructorMachTime ts2) d1
                  else Some (0, d1)) of
              None \<Rightarrow> None
            | Some (nanos, d2) \<Rightarrow>
                let slot = (g_dylibLoadInfos g ! unat index)
                             \<lparr>loadMachTime := currentMachTime, slide := slide_arg,
                              loadDurationNanos := nanos\<rparr>;
                    dylibInfo =
                      (case imagePath of
                         Some p \<Rightarrow>
                           slot\<lparr>name := (strncpy (name slot) (dp_extract_filename (Some p))
                                           (DP_MAX_DYLIB_NAME_LENGTH - 1))
                                         [DP_MAX_DYLIB_NAME_LENGTH - 1 := NUL],
                                isSystemLibrary := dp_is_system_library (Some p)\<rparr>
                       | None \<Rightarrow>
                           slot\<lparr>name := strncpy (name slot) ''unknown''
                                           (DP_MAX_DYLIB_NAME_LENGTH - 1),
                                isSystemLibrary := False\<rparr>);
                    d3 = d2\<lparr>dylibCount := index + 1\<rparr>;
                    d4 = (if isSystemLibrary dylibInfo
                          then d3\<lparr>systemDylibCount := systemDylibCount d3 + 1\<rparr>
                          else d3\<lparr>userDylibCount := userDylibCount d3 + 1\<rparr>)
                in Some (g\<lparr>g_preMainData := d4,
                           g_dylibLoadInfos := (g_dylibLoadInfos g)[unat index := dylibInfo],
                           g_dylibIndex := index + 1\<rparr>)))"

section \<open>Duration calculation\<close>

text \<open>The statement \<open>dur->field = DPMachTimeToMillis(machTime)\<close>, for the field that
  \<open>store\<close> writes.\<close>

definition assign_millis ::
  "mach_timebase_info_data_t \<Rightarrow> u64 \<Rightarrow> (real \<Rightarrow> DPPreMainDurations \<Rightarrow> DPPreMainDurations)
     \<Rightarrow> DPPreMainData \<Rightarrow> DPPreMainData option" where
  "assign_millis tbi machTime store d =
     (case DPMachTimeToMillis tbi machTime d of
        None \<Rightarrow> None
      | Some (ms, d') \<Rightarrow> Some (d'\<lparr>durations := store ms (durations d')\<rparr>))"

text \<open>The last block of \<open>dp_calculate_durations\<close>; \<open>now\<close> is what \<open>gettimeofday\<close> and
  \<open>machNow\<close> what \<open>mach_absolute_time\<close> return there.\<close>

definition estimate_kernel_to_constructor ::
  "mach_timebase_info_data_t \<Rightarrow> timeval \<Rightarrow> u64 \<Rightarrow> DPPreMainData \<Rightarrow> DPPreMainData option" where
  "estimate_kernel_to_constructor tbi now machNow d =
     (let ts = timestamps d;
          nowUnixMicros = timeval_micros now;
          totalSinceStartMs =
            real (unat (nowUnixMicros - processStartTimeUnixMicros ts)) / 1000
      in case DPMachTimeToNanos tbi (machNow - constructorMachTime ts) d of
           None \<Rightarrow> None
         | Some (constructorToNowNanos, d') \<Rightarrow>
             let constructorToNowMs = real (unat constructorToNowNanos) / 1000000;
                 est = totalSinceStartMs - constructorToNowMs
             in Some (d'\<lparr>durations := (durations d')
                          \<lparr>estimatedKernelToConstructorMs := (if est < 0 then 0 else est)\<rparr>\<rparr>))"

definition dp_calculate_durations ::
  "mach_timebase_info_data_t \<Rightarrow> timeval \<Rightarrow> u64 \<Rightarrow> DPPreMainData \<Rightarrow> DPPreMainData option" where
  "dp_calculate_durations tbi now machNow d0 =
     (if \<not> mainExecutedMarked d0 \<or> mainExecutedMachTime (timestamps d0) = 0 then Some d0
      else do {
        d1 \<leftarrow> (let ts = timestamps d0 in
               if constructorMachTime ts > 0
               then assign_millis tbi (mainExecutedMachTime ts - constructorMachTime ts)
                      (\<lambda>ms dur. dur\<lparr>totalPreMainMs := ms\<rparr>) d0
               else Some d0);
        d2 \<leftarrow> (let ts = timestamps d1 in
               if firstDyldCallbackMachTime ts > 0 \<and> lastDyldCallbackMachTime ts > 0
               then assign_millis tbi
                      (lastDyldCallbackMachTime ts - firstDyldCallbackMachTime ts)
                      (\<lambda>ms dur. dur\<lparr>dylibLoadingMs := ms\<rparr>) d1
               else Some d1);
        d3 \<leftarrow> (let ts = timestamps d2 in
               if objcLoadStartMachTime ts > 0 \<and> objcLoadEndMachTime ts > 0
               then assign_millis tbi (objcLoadEndMachTime ts - objcLoadStartMachTime ts)
                      (\<lambda>ms dur. dur\<lparr>objcLoadMs := ms\<rparr>) d2
               else Some d2);
        d4 \<leftarrow> (let ts = timestamps d3 in
               if constructorMachTime ts > 0 \<and> firstDyldCallbackMachTime ts > 0
               then assign_millis tbi
                      (firstDyldCallbackMachTime ts - constructorMachTime ts)
                      (\<lambda>ms dur. dur\<lparr>staticInitializerMs := ms\<rparr>) d3
               else Some d3);
        d5 \<leftarrow> (let ts = timestamps d4 in
               if lastDyldCallbackMachTime ts > 0
               then assign_millis tbi
                      (mainExecutedMachTime ts - lastDyldCallbackMachTime ts)
                      (\<lambda>ms dur. dur\<lparr>postDyldToMainMs := ms\<rparr>) d4
               else Some d4);
        if processStartTimeUnixMicros (timestamps d5) > 0
        then estimate_kernel_to_constructor tbi now machNow d5
        else Some d5
      })"

section \<open>Module initialisation\<close>

text \<open>The constructor. \<open>machTime\<close> is the reading of \<open>mach_absolute_time\<close>, \<open>kinfo\<close>
  the result of \<open>sysctl\<close>. Registering the callback changes no global: the images
  dyld then reports are calls of \<open>dp_dyld_image_added_callback\<close>.\<close>

definition dp_premain_init ::
  "mach_timebase_info_data_t \<Rightarrow> u64 \<Rightarrow> timeval option \<Rightarrow> globals \<Rightarrow> globals" where
  "dp_premain_init tbi machTime kinfo g =
     (if g_initialized g then g
      else
        let d = dp_initialize_timebase tbi (g_preMainData g);
            d = d\<lparr>timestamps := (timestamps d)\<lparr>constructorMachTime := machTime\<rparr>\<rparr>;
            d = d\<lparr>timestamps := (timestamps d)
                   \<lparr>processStartTimeUnixMicros :=
                      dp_get_process_start_time_unix_micros kinfo\<rparr>\<rparr>;
            d = d\<lparr>dylibDetailEnabled := True\<rparr>
        in g\<lparr>g_initialized := True, g_preMainData := d\<rparr>)"

section \<open>Public API\<close>

definition DPPreMainGetData :: "globals \<Rightarrow> DPPreMainData" where
  "DPPreMainGetData g = g_preMainData g"

definition DPPreMainMarkMainExecuted ::
  "mach_timebase_info_data_t \<Rightarrow> u64 \<Rightarrow> timeval \<Rightarrow> u64 \<Rightarrow> globals \<Rightarrow> globals option" where
  "DPPreMainMarkMainExecuted tbi mainMachTime now machNow g =
     (let d = g_preMainData g
      in if \<not> mainExecutedMarked d
         then
           (case dp_calculate_durations tbi now machNow
                   (d\<lparr>timestamps := (timestamps d)\<lparr>mainExecutedMachTime := mainMachTime\<rparr>,
                      mainExecutedMarked := True\<rparr>) of
              None \<Rightarrow> None
            | Some d' \<Rightarrow> Some (g\<lparr>g_preMainData := d'\<rparr>))
         else Some g)"

definition DPPreMainMarkObjCLoadStart :: "u64 \<Rightarrow> globals \<Rightarrow> globals" where
  "DPPreMainMarkObjCLoadStart machTime g =
     (let d = g_preMainData g
      in if objcLoadStartMachTime (timestamps d) = 0
         then g\<lparr>g_preMainData :=
                  d\<lparr>timestamps := (timestamps d)\<lparr>objcLoadStartMachTime := machTime\<rparr>\<rparr>\<rparr>
         else g)"

definition DPPreMainMarkObjCLoadEnd :: "u64 \<Rightarrow> globals \<Rightarrow> globals" where
  "DPPreMainMarkObjCLoadEnd machTime g =
     (let d = g_preMainData g
      in if objcLoadEndMachTime (timestamps d) = 0
         then g\<lparr>g_preMainData :=
                  d\<lparr>timestamps := (timestamps d)\<lparr>objcLoadEndMachTime := machTime\<rparr>\<rparr>\<rparr>
         else g)"

definition DPPreMainGetDylibInfo :: "u32 \<Rightarrow> globals \<Rightarrow> DPDylibLoadInfo option" where
  "DPPreMainGetDylibInfo index g =
     (if index \<ge> dylibCount (g_preMainData g) \<or> unat index \<ge> capacity g then None
      else Some (g_dylibLoadInfos g ! unat index))"

text \<open>\<open>memcpy\<close> of \<open>n\<close> records: the first \<open>n\<close> records of the destination are replaced
  by the first \<open>n\<close> of the source.\<close>

definition memcpy :: "'a list \<Rightarrow> 'a list \<Rightarrow> nat \<Rightarrow> 'a list" where
  "memcpy dst src n = take n src @ drop n dst"

text \<open>The output buffer is \<open>None\<close> for a \<open>NULL\<close> pointer and else the records it
  holds; the functions return the count and the buffer as they leave it.\<close>

definition DPPreMainGetAllDylibs ::
  "DPDylibLoadInfo list option \<Rightarrow> u32 \<Rightarrow> globals \<Rightarrow> u32 \<times> DPDylibLoadInfo list option" where
  "DPPreMainGetAllDylibs outBuffer bufferSize g =
     (case outBuffer of
        None \<Rightarrow> (0, None)
      | Some buf \<Rightarrow>
          if bufferSize = 0 then (0, Some buf)
          else
            let count = dylibCount (g_preMainData g);
                count = (if count > bufferSize then bufferSize else count);
                count = (if unat count > capacity g then of_nat (capacity g) else count)
            in (count, Some (memcpy buf (g_dylibLoadInfos g) (unat count))))"

definition dp_compare_dylib_by_duration :: "DPDylibLoadInfo \<Rightarrow> DPDylibLoadInfo \<Rightarrow> int" where
  "dp_compare_dylib_by_duration infoA infoB =
     (if loadDurationNanos infoA > loadDurationNanos infoB then - 1
      else if loadDurationNanos infoA < loadDurationNanos infoB then 1
      else 0)"

text \<open>
  \<open>qsort\<close> is the C library's: it orders the array by the comparison function and
  leaves the order of elements that compare equal unspecified. The model sorts by
  insertion, putting an element before the first one it does not compare greater
  than.
\<close>

fun qsort_insert :: "('a \<Rightarrow> 'a \<Rightarrow> int) \<Rightarrow> 'a \<Rightarrow> 'a list \<Rightarrow> 'a list" where
  "qsort_insert compar x [] = [x]"
| "qsort_insert compar x (y # ys) =
     (if compar x y \<le> 0 then x # y # ys else y # qsort_insert compar x ys)"

fun qsort :: "'a list \<Rightarrow> ('a \<Rightarrow> 'a \<Rightarrow> int) \<Rightarrow> 'a list" where
  "qsort [] compar = []"
| "qsort (x # xs) compar = qsort_insert compar x (qsort xs compar)"

text \<open>\<open>malloc_ok\<close> tells whether \<open>malloc\<close> returns a buffer for the temporary copy.\<close>

definition DPPreMainGetSlowestDylibs ::
  "bool \<Rightarrow> DPDylibLoadInfo list option \<Rightarrow> u32 \<Rightarrow> globals
     \<Rightarrow> u32 \<times> DPDylibLoadInfo list option" where
  "DPPreMainGetSlowestDylibs malloc_ok outBuffer count g =
     (case outBuffer of
        None \<Rightarrow> (0, None)
      | Some buf \<Rightarrow>
          if count = 0 then (0, Some buf)
          else
            let totalCount = dylibCount (g_preMainData g);
                totalCount = (if unat totalCount > capacity g then of_nat (capacity g)
                              else totalCount)
            in if \<not> malloc_ok then (0, Some buf)
               else
                 let tempBuffer = take (unat totalCount) (g_dylibLoadInfos g);
                     tempBuffer = qsort tempBuffer dp_compare_dylib_by_duration;
                     resultCount = (if count < totalCount then count else totalCount)
                 in (resultCount, Some (memcpy buf tempBuffer (unat resultCount))))"

definition DPPreMainSetDylibDetailEnabled :: "bool \<Rightarrow> globals \<Rightarrow> globals" where
  "DPPreMainSetDylibDetailEnabled enabled g =
     g\<lparr>g_preMainData := (g_preMainData g)\<lparr>dylibDetailEnabled := enabled\<rparr>\<rparr>"

definition DPPreMainReset :: "mach_timebase_info_data_t \<Rightarrow> globals \<Rightarrow> globals" where
  "DPPreMainReset tbi g =
     g\<lparr>g_preMainData :=
         dp_initialize_timebase tbi (zero_DPPreMainData\<lparr>dylibDetailEnabled := True\<rparr>),
       g_dylibLoadInfos := replicate (capacity g) zero_DPDylibLoadInfo,
       g_dylibIndex := 0\<rparr>"

section \<open>Sequences of calls\<close>

text \<open>The calls that reach the monitor, each with what the platform returns to it.\<close>

datatype call =
    Premain_init u64 "timeval option"
  | Image_added u64 "string option" "64 word"
  | MarkMainExecuted u64 timeval u64
  | MarkObjCLoadStart u64
  | MarkObjCLoadEnd u64
  | SetDylibDetailEnabled bool
  | Reset

fun step :: "mach_timebase_info_data_t \<Rightarrow> call \<Rightarrow> globals \<Rightarrow> globals option" where
  "step tbi (Premain_init t kinfo) g = Some (dp_premain_init tbi t kinfo g)"
| "step tbi (Image_added t path sl) g = dp_dyld_image_added_callback tbi t path sl g"
| "step tbi (MarkMainExecuted t now machNow) g = DPPreMainMarkMainExecuted tbi t now machNow g"
| "step tbi (MarkObjCLoadStart t) g = Some (DPPreMainMarkObjCLoadStart t g)"
| "step tbi (MarkObjCLoadEnd t) g = Some (DPPreMainMarkObjCLoadEnd t g)"
| "step tbi (SetDylibDetailEnabled b) g = Some (DPPreMainSetDylibDetailEnabled b g)"
| "step tbi Reset g = Some (DPPreMainReset tbi g)"

fun run :: "mach_timebase_info_data_t \<Rightarrow> call list \<Rightarrow> globals \<Rightarrow> globals option" where
  "run tbi [] g = Some g"
| "run tbi (c # cs) g = (case step tbi c g of None \<Rightarrow> None | Some g' \<Rightarrow> run tbi cs g')"

text \<open>
  The states the calculator meets. \<open>clock_started\<close> says that the constructor read a
  non-zero \<open>mach_absolute_time\<close>, which counts ticks since boot. \<open>calculator_pending\<close>
  holds of the zeroed statics and is kept by every call (shown below): the process
  start time is set only together with the constructor time, and the durations are
  zero as long as the entry point is not marked.
\<close>

fun clock_started :: "call \<Rightarrow> bool" where
  "clock_started (Premain_init machTime kinfo) = (machTime \<noteq> 0)"
| "clock_started c = True"

definition calculator_pending :: "globals \<Rightarrow> bool" where
  "calculator_pending g =
     ((constructorMachTime (timestamps (g_preMainData g)) = 0 \<longrightarrow>
         processStartTimeUnixMicros (timestamps (g_preMainData g)) = 0) \<and>
      (\<not> mainExecutedMarked (g_preMainData g) \<longrightarrow>
         durations (g_preMainData g) = zero_DPPreMainDurations))"

section \<open>Example inputs\<close>

text \<open>Concrete inputs at which the theorems below are instantiated.\<close>

definition snapshot :: "u64 \<Rightarrow> u64 \<Rightarrow> u64 \<Rightarrow> u64 \<Rightarrow> u32 \<Rightarrow> u32 \<Rightarrow> DPPreMainData" where
  "snapshot c f l m n k =
     zero_DPPreMainData
       \<lparr>timestamps := zero_DPPreMainTimestamps
          \<lparr>constructorMachTime := c, firstDyldCallbackMachTime := f,
           lastDyldCallbackMachTime := l, mainExecutedMachTime := m\<rparr>,
        mainExecutedMarked := True, timebaseNumer := n, timebaseDenom := k\<rparr>"

definition tb_1_3 :: mach_timebase_info_data_t where
  "tb_1_3 = \<lparr>numer = 1, denom = 3\<rparr>"

definition tb_125_3 :: mach_timebase_info_data_t where
  "tb_125_3 = \<lparr>numer = 125, denom = 3\<rparr>"

definition epoch :: timeval where
  "epoch = \<lparr>tv_sec = 0, tv_usec = 0\<rparr>"

definition tv_1001_micros :: timeval where
  "tv_1001_micros = \<lparr>tv_sec = 0, tv_usec = 1001\<rparr>"

definition before_main :: globals where
  "before_main =
     (g_zero 1)\<lparr>g_preMainData := (snapshot 1000 1200 5000 0 1 1)\<lparr>mainExecutedMarked := False\<rparr>\<rparr>"

definition after_main :: globals where
  "after_main =
     (g_zero 1)\<lparr>g_preMainData := (snapshot 1000 1200 5000 6000 1 1)
        \<lparr>durations :=
           \<lparr>totalPreMainMs = 5 / 1000, dylibLoadingMs = 38 / 10000, objcLoadMs = 0,
            staticInitializerMs = 2 / 10000, postDyldToMainMs = 1 / 1000,
            estimatedKernelToConstructorMs = 0\<rparr>\<rparr>\<rparr>"

definition libobjc :: string where
  "libobjc = ''/usr/lib/libobjc.A.dylib''"

definition demo_app :: string where
  "demo_app = ''/private/var/containers/Bundle/Application/Demo.app/Demo''"

text \<open>The globals after the constructor has run at tick 1000 on a ledger of \<open>n\<close> slots.\<close>

definition constructed :: "nat \<Rightarrow> globals" where
  "constructed n = dp_premain_init tb_125_3 1000 None (g_zero n)"

text \<open>The program's own globals, with 512 slots, after the constructor.\<close>

definition started :: globals where
  "started = dp_premain_init tb_125_3 1000 None g_static"

definition two_loads :: "call list" where
  "two_loads = [Image_added 1200 (Some libobjc) 0, Image_added 1300 (Some demo_app) 0]"

definition three_loads :: "call list" where
  "three_loads = two_loads @ [Image_added 1400 (Some libobjc) 0]"

definition full_ledger :: globals where
  "full_ledger = the (run tb_125_3 two_loads (constructed 2))"

definition toggled_loads :: "call list" where
  "toggled_loads =
     [SetDylibDetailEnabled False, Image_added 1200 (Some libobjc) 0,
      SetDylibDetailEnabled True, Image_added 1300 (Some demo_app) 0]"

definition reset_calls :: "call list" where
  "reset_calls =
     [Premain_init 1000 (Some \<lparr>tv_sec = 1, tv_usec = 0\<rparr>),
      Image_added 1200 (Some libobjc) 0, Reset]"

definition after_reset :: globals where
  "after_reset = the (run tb_125_3 reset_calls (g_zero 2))"

definition dirty :: globals where
  "dirty = after_main\<lparr>g_dylibIndex := 7, g_initialized := True\<rparr>"

definition took :: "u64 \<Rightarrow> DPDylibLoadInfo" where
  "took nanos = zero_DPDylibLoadInfo\<lparr>loadDurationNanos := nanos\<rparr>"

definition three_records :: globals where
  "three_records =
     (g_zero 3)\<lparr>g_preMainData := zero_DPPreMainData\<lparr>dylibCount := 3\<rparr>,
                g_dylibLoadInfos := [took 5, took 9, took 7]\<rparr>"

section \<open>Properties of the time conversion\<close>

lemma unat_ucast_u32_u64: "unat (ucast (w :: u32) :: u64) = unat w"
proof -
  have "unat w < 2 ^ 32"
    using unsigned_less [of w, where 'a = nat] by simp
  then have "unat w < 2 ^ 64"
    by simp
  then show ?thesis
    by (simp add: unsigned_ucast_eq take_bit_nat_eq_self)
qed

lemma DPMachTimeToNanos_initialized:
  assumes "timebaseDenom d \<noteq> 0"
  shows "DPMachTimeToNanos tbi t d =
           Some (t * ucast (timebaseNumer d) div ucast (timebaseDenom d), d)"
  using assms by (simp add: DPMachTimeToNanos_def)

lemma unat_nanos:
  "unat ((t :: u64) * ucast (n :: u32) div ucast (m :: u32)) =
     (unat t * unat n mod 2 ^ 64) div unat m"
  by (simp add: unat_div unat_word_ariths unat_ucast_u32_u64)

lemma unat_nanos_nowrap:
  assumes "unat (t :: u64) * unat (n :: u32) < 2 ^ 64"
  shows "unat (t * ucast n div ucast (m :: u32)) = unat t * unat n div unat m"
  using assms by (simp add: unat_nanos)

text \<open>
  Claim C5, as the code has it: with an initialised timebase \<open>DPMachTimeToNanos\<close>
  returns \<open>((t * numerator) mod 2^64) div denominator\<close> and leaves the data as they
  are. The product is not widened; the result is the exact \<open>(t * numerator) div
  denominator\<close> whenever the product fits in 64 bits.
\<close>

theorem DPMachTimeToNanos_product_mod_2_64:
  assumes "timebaseDenom d \<noteq> 0"
  shows "\<exists>r. DPMachTimeToNanos tbi t d = Some (r, d) \<and>
           unat r = (unat t * unat (timebaseNumer d) mod 2 ^ 64) div unat (timebaseDenom d) \<and>
           (unat t * unat (timebaseNumer d) < 2 ^ 64 \<longrightarrow>
              unat r = unat t * unat (timebaseNumer d) div unat (timebaseDenom d))"
  using assms by (simp add: DPMachTimeToNanos_initialized unat_nanos)

theorem DPMachTimeToNanos_product_mod_2_64_witness:
  "\<exists>r. DPMachTimeToNanos tb_125_3 24
           (zero_DPPreMainData\<lparr>timebaseNumer := 125, timebaseDenom := 3\<rparr>) =
          Some (r, zero_DPPreMainData\<lparr>timebaseNumer := 125, timebaseDenom := 3\<rparr>) \<and>
        unat r = 1000"
  using DPMachTimeToNanos_product_mod_2_64
    [of "zero_DPPreMainData\<lparr>timebaseNumer := 125, timebaseDenom := 3\<rparr>" tb_125_3 24]
  by (simp add: zero_DPPreMainData_def)

text \<open>
  Claim C5 as stated fails: for \<open>t = 2^63\<close> ticks and the timebase 2/2 the exact
  value \<open>(t * 2) div 2\<close> is \<open>2^63\<close>, and the code returns 0, since \<open>t * 2\<close> wraps
  to 0 in 64 bits.
\<close>

theorem DPMachTimeToNanos_wraps:
  "DPMachTimeToNanos \<lparr>numer = 2, denom = 2\<rparr> 0x8000000000000000
       (zero_DPPreMainData\<lparr>timebaseNumer := 2, timebaseDenom := 2\<rparr>) =
     Some (0, zero_DPPreMainData\<lparr>timebaseNumer := 2, timebaseDenom := 2\<rparr>)
   \<and> unat (0x8000000000000000 :: u64) * unat (2 :: u32) div unat (2 :: u32)
       = 0x8000000000000000"
  by (simp add: DPMachTimeToNanos_def zero_DPPreMainData_def)

section \<open>Properties of the duration calculation\<close>

lemma assign_millis_initialized:
  assumes "timebaseDenom d \<noteq> 0"
  shows "assign_millis tbi t store d =
           Some (d\<lparr>durations :=
                     store (real (unat (t * ucast (timebaseNumer d) div ucast (timebaseDenom d)))
                              / 1000000) (durations d)\<rparr>)"
  using assms
  by (simp add: assign_millis_def DPMachTimeToMillis_def DPMachTimeToNanos_initialized)

lemma estimate_initialized:
  assumes "timebaseDenom d \<noteq> 0"
  shows "estimate_kernel_to_constructor tbi now machNow d =
           Some (d\<lparr>durations := (durations d)\<lparr>estimatedKernelToConstructorMs :=
             max 0 (real (unat (timeval_micros now - processStartTimeUnixMicros (timestamps d)))
                      / 1000
                    - real (unat ((machNow - constructorMachTime (timestamps d))
                              * ucast (timebaseNumer d) div ucast (timebaseDenom d)))
                      / 1000000)\<rparr>\<rparr>)"
  using assms
  by (simp add: estimate_kernel_to_constructor_def DPMachTimeToNanos_initialized Let_def
      max_def)

subsection \<open>Three truncated quotients against the quotient of the sum\<close>

lemma div3_split:
  assumes "0 < (k::nat)"
  shows "(x + y + z) div k =
           x div k + y div k + z div k + (x mod k + y mod k + z mod k) div k"
proof -
  have "x + y + z = (x div k + y div k + z div k) * k + (x mod k + y mod k + z mod k)"
    by (simp add: algebra_simps)
  then have "(x + y + z) div k =
      ((x div k + y div k + z div k) * k + (x mod k + y mod k + z mod k)) div k"
    by simp
  also have "\<dots> = x div k + y div k + z div k + (x mod k + y mod k + z mod k) div k"
    using assms by simp
  finally show ?thesis .
qed

lemma div3_lower: "(x::nat) div k + y div k + z div k \<le> (x + y + z) div k"
proof (cases "k = 0")
  case True
  then show ?thesis by simp
next
  case False
  then show ?thesis using div3_split [of k x y z] by simp
qed

lemma div3_upper:
  assumes "0 < (k::nat)"
  shows "(x + y + z) div k \<le> x div k + y div k + z div k + 2"
proof -
  have "x mod k < k" "y mod k < k" "z mod k < k"
    using assms by simp_all
  then have "x mod k + y mod k + z mod k < 3 * k"
    by linarith
  then have "(x mod k + y mod k + z mod k) div k < 3"
    using assms by (simp add: less_mult_imp_div_less)
  then show ?thesis
    using div3_split [OF assms, of x y z] by simp
qed

lemma nanos_parts:
  fixes c f l m :: u64 and n k :: u32
  assumes "c \<le> f" "f \<le> l" "l \<le> m" and "k \<noteq> 0"
    and nowrap: "unat (m - c) * unat n < 2 ^ 64"
  defines "N \<equiv> \<lambda>t :: u64. unat (t * ucast n div ucast k)"
  shows "N (l - f) + N (f - c) + N (m - l) \<le> N (m - c)"
    and "N (m - c) \<le> N (l - f) + N (f - c) + N (m - l) + 2"
    and "unat k dvd unat n \<Longrightarrow> N (m - c) = N (l - f) + N (f - c) + N (m - l)"
proof -
  have le: "unat c \<le> unat f" "unat f \<le> unat l" "unat l \<le> unat m"
    using assms(1-3) by (simp_all add: word_le_nat_alt)
  have sub: "unat (l - f) = unat l - unat f" "unat (f - c) = unat f - unat c"
    "unat (m - l) = unat m - unat l" "unat (m - c) = unat m - unat c"
    using assms(1-3) by (simp_all add: unat_sub)
  have sum: "unat (l - f) + unat (f - c) + unat (m - l) = unat (m - c)"
    using le sub by simp
  have k: "0 < unat k"
    using \<open>k \<noteq> 0\<close> by (simp add: unat_gt_0)
  have small: "unat (l - f) * unat n < 2 ^ 64" "unat (f - c) * unat n < 2 ^ 64"
    "unat (m - l) * unat n < 2 ^ 64"
  proof -
    have "unat (l - f) \<le> unat (m - c)" "unat (f - c) \<le> unat (m - c)"
      "unat (m - l) \<le> unat (m - c)"
      using le sub by simp_all
    then have "unat (l - f) * unat n \<le> unat (m - c) * unat n"
      "unat (f - c) * unat n \<le> unat (m - c) * unat n"
      "unat (m - l) * unat n \<le> unat (m - c) * unat n"
      by (simp_all add: mult_le_mono1)
    then show "unat (l - f) * unat n < 2 ^ 64" "unat (f - c) * unat n < 2 ^ 64"
      "unat (m - l) * unat n < 2 ^ 64"
      using nowrap by linarith+
  qed
  have N: "N (l - f) = unat (l - f) * unat n div unat k"
    "N (f - c) = unat (f - c) * unat n div unat k"
    "N (m - l) = unat (m - l) * unat n div unat k"
    "N (m - c) = unat (m - c) * unat n div unat k"
    using small nowrap by (simp_all add: N_def unat_nanos_nowrap)
  have total: "unat (m - c) * unat n =
      unat (l - f) * unat n + unat (f - c) * unat n + unat (m - l) * unat n"
    by (simp add: sum [symmetric] algebra_simps)
  show "N (l - f) + N (f - c) + N (m - l) \<le> N (m - c)"
    unfolding N total by (rule div3_lower)
  show "N (m - c) \<le> N (l - f) + N (f - c) + N (m - l) + 2"
    unfolding N total by (rule div3_upper [OF k])
  show "N (m - c) = N (l - f) + N (f - c) + N (m - l)" if "unat k dvd unat n"
  proof -
    have "(unat (l - f) * unat n) mod unat k = 0" "(unat (f - c) * unat n) mod unat k = 0"
      "(unat (m - l) * unat n) mod unat k = 0"
      using that by simp_all
    then show ?thesis
      unfolding N total
      using div3_split [OF k, of "unat (l - f) * unat n" "unat (f - c) * unat n"
          "unat (m - l) * unat n"]
      by simp
  qed
qed

text \<open>
  Claim C1, as the code has it. With the four timestamps non-zero and in order, an
  initialised timebase, and \<open>(main - constructor) * numerator\<close> below \<open>2^64\<close>,
  \<open>dp_calculate_durations\<close> stores in \<open>totalPreMainMs\<close>, \<open>dylibLoadingMs\<close>,
  \<open>staticInitializerMs\<close> and \<open>postDyldToMainMs\<close> what \<open>DPMachTimeToMillis\<close> returns for
  the four tick differences, each the conversion of the whole nanoseconds that
  \<open>DPMachTimeToNanos\<close> returns. These four nanosecond counts are truncated
  quotients: the three parts add up to at most the total and fall short of it by at
  most 2, and add up to it exactly when the denominator divides the numerator.
  Nothing is stated about sums of the stored doubles, which are rounded on top.
\<close>

theorem durations_nanos_within_two:
  fixes d :: DPPreMainData
  defines "ts \<equiv> timestamps d"
  assumes init: "timebaseDenom d \<noteq> 0"
    and marked: "mainExecutedMarked d"
    and nz: "constructorMachTime ts \<noteq> 0" "firstDyldCallbackMachTime ts \<noteq> 0"
      "lastDyldCallbackMachTime ts \<noteq> 0" "mainExecutedMachTime ts \<noteq> 0"
    and ord: "constructorMachTime ts \<le> firstDyldCallbackMachTime ts"
      "firstDyldCallbackMachTime ts \<le> lastDyldCallbackMachTime ts"
      "lastDyldCallbackMachTime ts \<le> mainExecutedMachTime ts"
    and nowrap: "unat (mainExecutedMachTime ts - constructorMachTime ts)
                   * unat (timebaseNumer d) < 2 ^ 64"
  shows "\<exists>d' total dylib static post.
           dp_calculate_durations tbi now machNow d = Some d' \<and>
           DPMachTimeToNanos tbi (mainExecutedMachTime ts - constructorMachTime ts) d
             = Some (total, d) \<and>
           DPMachTimeToNanos tbi (lastDyldCallbackMachTime ts - firstDyldCallbackMachTime ts) d
             = Some (dylib, d) \<and>
           DPMachTimeToNanos tbi (firstDyldCallbackMachTime ts - constructorMachTime ts) d
             = Some (static, d) \<and>
           DPMachTimeToNanos tbi (mainExecutedMachTime ts - lastDyldCallbackMachTime ts) d
             = Some (post, d) \<and>
           DPMachTimeToMillis tbi (mainExecutedMachTime ts - constructorMachTime ts) d
             = Some (totalPreMainMs (durations d'), d) \<and>
           DPMachTimeToMillis tbi (lastDyldCallbackMachTime ts - firstDyldCallbackMachTime ts) d
             = Some (dylibLoadingMs (durations d'), d) \<and>
           DPMachTimeToMillis tbi (firstDyldCallbackMachTime ts - constructorMachTime ts) d
             = Some (staticInitializerMs (durations d'), d) \<and>
           DPMachTimeToMillis tbi (mainExecutedMachTime ts - lastDyldCallbackMachTime ts) d
             = Some (postDyldToMainMs (durations d'), d) \<and>
           unat dylib + unat static + unat post \<le> unat total \<and>
           unat total \<le> unat dylib + unat static + unat post + 2 \<and>
           (unat (timebaseDenom d) dvd unat (timebaseNumer d) \<longrightarrow>
              unat total = unat dylib + unat static + unat post)"
proof -
  let ?N = "\<lambda>t :: u64. t * ucast (timebaseNumer d) div ucast (timebaseDenom d)"
  let ?c = "constructorMachTime ts" and ?f = "firstDyldCallbackMachTime ts"
  let ?l = "lastDyldCallbackMachTime ts" and ?m = "mainExecutedMachTime ts"
  have nanos: "DPMachTimeToNanos tbi t d = Some (?N t, d)" for t
    using init by (rule DPMachTimeToNanos_initialized)
  have millis: "DPMachTimeToMillis tbi t d = Some (real (unat (?N t)) / 1000000, d)" for t
    by (simp add: DPMachTimeToMillis_def nanos)
  have "\<exists>d'. dp_calculate_durations tbi now machNow d = Some d' \<and>
      totalPreMainMs (durations d') = real (unat (?N (?m - ?c))) / 1000000 \<and>
      dylibLoadingMs (durations d') = real (unat (?N (?l - ?f))) / 1000000 \<and>
      staticInitializerMs (durations d') = real (unat (?N (?f - ?c))) / 1000000 \<and>
      postDyldToMainMs (durations d') = real (unat (?N (?m - ?l))) / 1000000"
    using init marked nz
    by (simp add: dp_calculate_durations_def ts_def Let_def assign_millis_initialized
        estimate_initialized word_gt_0)
  then obtain d' where run: "dp_calculate_durations tbi now machNow d = Some d'"
    and fields: "totalPreMainMs (durations d') = real (unat (?N (?m - ?c))) / 1000000"
      "dylibLoadingMs (durations d') = real (unat (?N (?l - ?f))) / 1000000"
      "staticInitializerMs (durations d') = real (unat (?N (?f - ?c))) / 1000000"
      "postDyldToMainMs (durations d') = real (unat (?N (?m - ?l))) / 1000000"
    by blast
  have lo: "unat (?N (?l - ?f)) + unat (?N (?f - ?c)) + unat (?N (?m - ?l)) \<le> unat (?N (?m - ?c))"
    and hi: "unat (?N (?m - ?c))
               \<le> unat (?N (?l - ?f)) + unat (?N (?f - ?c)) + unat (?N (?m - ?l)) + 2"
    and eq: "unat (timebaseDenom d) dvd unat (timebaseNumer d) \<Longrightarrow>
               unat (?N (?m - ?c))
                 = unat (?N (?l - ?f)) + unat (?N (?f - ?c)) + unat (?N (?m - ?l))"
    using nanos_parts [OF ord init nowrap] by simp_all
  show ?thesis
    apply (rule exI [of _ d'], rule exI [of _ "?N (?m - ?c)"], rule exI [of _ "?N (?l - ?f)"])
    apply (rule exI [of _ "?N (?f - ?c)"], rule exI [of _ "?N (?m - ?l)"])
    using run lo hi eq by (simp add: nanos millis fields)
qed

text \<open>The scenario of the specification: ticks 1000, 1200, 5000 and 6000 at one
  nanosecond a tick give 5000, 3800, 200 and 1000 nanoseconds.\<close>

theorem durations_nanos_within_two_witness:
  "\<exists>d'. dp_calculate_durations tb_1_3 epoch 0 (snapshot 1000 1200 5000 6000 1 1) = Some d' \<and>
     DPMachTimeToNanos tb_1_3 (6000 - 1000) (snapshot 1000 1200 5000 6000 1 1)
       = Some (5000, snapshot 1000 1200 5000 6000 1 1) \<and>
     DPMachTimeToNanos tb_1_3 (5000 - 1200) (snapshot 1000 1200 5000 6000 1 1)
       = Some (3800, snapshot 1000 1200 5000 6000 1 1) \<and>
     DPMachTimeToNanos tb_1_3 (1200 - 1000) (snapshot 1000 1200 5000 6000 1 1)
       = Some (200, snapshot 1000 1200 5000 6000 1 1) \<and>
     DPMachTimeToNanos tb_1_3 (6000 - 5000) (snapshot 1000 1200 5000 6000 1 1)
       = Some (1000, snapshot 1000 1200 5000 6000 1 1) \<and>
     DPMachTimeToMillis tb_1_3 (6000 - 1000) (snapshot 1000 1200 5000 6000 1 1)
       = Some (totalPreMainMs (durations d'), snapshot 1000 1200 5000 6000 1 1) \<and>
     (3800 :: nat) + 200 + 1000 = 5000"
proof -
  have ts: "timestamps (snapshot 1000 1200 5000 6000 1 1) =
      zero_DPPreMainTimestamps
          \<lparr>constructorMachTime := 1000, firstDyldCallbackMachTime := 1200,
           lastDyldCallbackMachTime := 5000, mainExecutedMachTime := 6000\<rparr>"
    "timebaseDenom (snapshot 1000 1200 5000 6000 1 1) = 1"
    "timebaseNumer (snapshot 1000 1200 5000 6000 1 1) = 1"
    "mainExecutedMarked (snapshot 1000 1200 5000 6000 1 1)"
    by (simp_all add: snapshot_def zero_DPPreMainData_def)
  have nanos: "DPMachTimeToNanos tb_1_3 t (snapshot 1000 1200 5000 6000 1 1)
      = Some (t, snapshot 1000 1200 5000 6000 1 1)" for t
    by (simp add: DPMachTimeToNanos_def ts)
  show ?thesis
    using durations_nanos_within_two
      [of "snapshot 1000 1200 5000 6000 1 1" tb_1_3 epoch 0]
    by (auto simp: ts nanos zero_DPPreMainTimestamps_def)
qed

text \<open>
  Claim C1 as stated fails: with the timebase 1/3 and the ticks 1, 2, 3 and 4 the
  total of 3 ticks is 1 nanosecond, and each part of 1 tick is 0 nanoseconds, so
  \<open>totalPreMainMs\<close> is \<open>10^-6\<close> and the three parts are 0.
\<close>

theorem durations_sum_truncated:
  "dp_calculate_durations tb_1_3 epoch 0 (snapshot 1 2 3 4 1 3) =
     Some ((snapshot 1 2 3 4 1 3)
             \<lparr>durations := zero_DPPreMainDurations\<lparr>totalPreMainMs := 1 / 1000000\<rparr>\<rparr>)
   \<and> (1 / 1000000 :: real) \<noteq> 0 + 0 + 0"
  by (simp add: dp_calculate_durations_def snapshot_def zero_DPPreMainData_def
      zero_DPPreMainTimestamps_def zero_DPPreMainDurations_def Let_def
      assign_millis_initialized)

subsection \<open>What each block of the calculation writes\<close>

lemma DPMachTimeToNanos_Some:
  assumes "DPMachTimeToNanos tbi t d = Some (r, d')"
  shows "timestamps d' = timestamps d" and "durations d' = durations d"
    and "mainExecutedMarked d' = mainExecutedMarked d"
  using assms
  by (auto simp: DPMachTimeToNanos_def dp_initialize_timebase_def Let_def split: if_splits)

lemma assign_millis_Some:
  assumes "assign_millis tbi t store d = Some d'"
  shows "timestamps d' = timestamps d" and "\<exists>ms. durations d' = store ms (durations d)"
    and "mainExecutedMarked d' = mainExecutedMarked d"
proof -
  from assms obtain r d1 where nanos: "DPMachTimeToNanos tbi t d = Some (r, d1)"
    and d': "d' = d1\<lparr>durations := store (real (unat r) / 1000000) (durations d1)\<rparr>"
    by (auto simp: assign_millis_def DPMachTimeToMillis_def split: option.splits)
  note frame = DPMachTimeToNanos_Some [OF nanos]
  show "timestamps d' = timestamps d"
    by (simp add: d' frame)
  show "\<exists>ms. durations d' = store ms (durations d)"
    by (auto simp: d' frame)
  show "mainExecutedMarked d' = mainExecutedMarked d"
    by (simp add: d' frame)
qed

lemma guarded_assign_Some:
  assumes "(if G then assign_millis tbi t store d else Some d) = Some d'"
  shows "timestamps d' = timestamps d"
    and "\<exists>ms. durations d' = (if G then store ms (durations d) else durations d)"
    and "mainExecutedMarked d' = mainExecutedMarked d"
  using assms by (auto split: if_splits dest: assign_millis_Some)

lemma estimate_Some:
  assumes "estimate_kernel_to_constructor tbi now machNow d = Some d'"
  shows "timestamps d' = timestamps d"
    and "\<exists>e. durations d' = (durations d)\<lparr>estimatedKernelToConstructorMs := e\<rparr>"
    and "mainExecutedMarked d' = mainExecutedMarked d"
proof -
  from assms obtain r d1 e where
    nanos: "DPMachTimeToNanos tbi (machNow - constructorMachTime (timestamps d)) d = Some (r, d1)"
    and d': "d' = d1\<lparr>durations := (durations d1)\<lparr>estimatedKernelToConstructorMs := e\<rparr>\<rparr>"
    by (auto simp: estimate_kernel_to_constructor_def Let_def split: option.splits)
  note frame = DPMachTimeToNanos_Some [OF nanos]
  show "timestamps d' = timestamps d"
    by (simp add: d' frame)
  show "\<exists>e. durations d' = (durations d)\<lparr>estimatedKernelToConstructorMs := e\<rparr>"
    by (auto simp: d' frame)
  show "mainExecutedMarked d' = mainExecutedMarked d"
    by (simp add: d' frame)
qed

lemma guarded_estimate_Some:
  assumes "(if G then estimate_kernel_to_constructor tbi now machNow d else Some d) = Some d'"
  shows "timestamps d' = timestamps d"
    and "\<exists>e. durations d' =
           (if G then (durations d)\<lparr>estimatedKernelToConstructorMs := e\<rparr> else durations d)"
    and "mainExecutedMarked d' = mainExecutedMarked d"
  using assms by (auto split: if_splits dest: estimate_Some)

lemma dp_calculate_durations_blocks:
  assumes run: "dp_calculate_durations tbi now machNow d = Some d'"
    and go: "mainExecutedMarked d" "mainExecutedMachTime (timestamps d) \<noteq> 0"
  shows "\<exists>ms1 ms2 ms3 ms4 ms5 e.
      timestamps d' = timestamps d \<and> mainExecutedMarked d' \<and>
      durations d' =
        (let ts = timestamps d;
             dur = durations d;
             dur = (if 0 < constructorMachTime ts then dur\<lparr>totalPreMainMs := ms1\<rparr> else dur);
             dur = (if 0 < firstDyldCallbackMachTime ts \<and> 0 < lastDyldCallbackMachTime ts
                    then dur\<lparr>dylibLoadingMs := ms2\<rparr> else dur);
             dur = (if 0 < objcLoadStartMachTime ts \<and> 0 < objcLoadEndMachTime ts
                    then dur\<lparr>objcLoadMs := ms3\<rparr> else dur);
             dur = (if 0 < constructorMachTime ts \<and> 0 < firstDyldCallbackMachTime ts
                    then dur\<lparr>staticInitializerMs := ms4\<rparr> else dur);
             dur = (if 0 < lastDyldCallbackMachTime ts
                    then dur\<lparr>postDyldToMainMs := ms5\<rparr> else dur)
         in if 0 < processStartTimeUnixMicros ts
            then dur\<lparr>estimatedKernelToConstructorMs := e\<rparr> else dur)"
proof -
  from run go obtain d1 d2 d3 d4 d5 where
    b1: "(if 0 < constructorMachTime (timestamps d)
          then assign_millis tbi
                 (mainExecutedMachTime (timestamps d) - constructorMachTime (timestamps d))
                 (\<lambda>ms dur. dur\<lparr>totalPreMainMs := ms\<rparr>) d
          else Some d) = Some d1"
    and b2: "(if 0 < firstDyldCallbackMachTime (timestamps d1)
                 \<and> 0 < lastDyldCallbackMachTime (timestamps d1)
          then assign_millis tbi
                 (lastDyldCallbackMachTime (timestamps d1)
                    - firstDyldCallbackMachTime (timestamps d1))
                 (\<lambda>ms dur. dur\<lparr>dylibLoadingMs := ms\<rparr>) d1
          else Some d1) = Some d2"
    and b3: "(if 0 < objcLoadStartMachTime (timestamps d2)
                 \<and> 0 < objcLoadEndMachTime (timestamps d2)
          then assign_millis tbi
                 (objcLoadEndMachTime (timestamps d2) - objcLoadStartMachTime (timestamps d2))
                 (\<lambda>ms dur. dur\<lparr>objcLoadMs := ms\<rparr>) d2
          else Some d2) = Some d3"
    and b4: "(if 0 < constructorMachTime (timestamps d3)
                 \<and> 0 < firstDyldCallbackMachTime (timestamps d3)
          then assign_millis tbi
                 (firstDyldCallbackMachTime (timestamps d3)
                    - constructorMachTime (timestamps d3))
                 (\<lambda>ms dur. dur\<lparr>staticInitializerMs := ms\<rparr>) d3
          else Some d3) = Some d4"
    and b5: "(if 0 < lastDyldCallbackMachTime (timestamps d4)
          then assign_millis tbi
                 (mainExecutedMachTime (timestamps d4) - lastDyldCallbackMachTime (timestamps d4))
                 (\<lambda>ms dur. dur\<lparr>postDyldToMainMs := ms\<rparr>) d4
          else Some d4) = Some d5"
    and b6: "(if 0 < processStartTimeUnixMicros (timestamps d5)
          then estimate_kernel_to_constructor tbi now machNow d5
          else Some d5) = Some d'"
    unfolding dp_calculate_durations_def Let_def
    by (simp add: bind_eq_Some_conv) blast
  note f1 = guarded_assign_Some [OF b1]
  note f2 = guarded_assign_Some [OF b2]
  note f3 = guarded_assign_Some [OF b3]
  note f4 = guarded_assign_Some [OF b4]
  note f5 = guarded_assign_Some [OF b5]
  note f6 = guarded_estimate_Some [OF b6]
  have ts: "timestamps d1 = timestamps d" "timestamps d2 = timestamps d"
    "timestamps d3 = timestamps d" "timestamps d4 = timestamps d"
    "timestamps d5 = timestamps d" "timestamps d' = timestamps d"
    by (simp_all add: f1(1) f2(1) f3(1) f4(1) f5(1) f6(1))
  have mk: "mainExecutedMarked d'"
    using go(1) by (simp add: f1(3) f2(3) f3(3) f4(3) f5(3) f6(3))
  from f1(2) obtain ms1 where
    1: "durations d1 = (if 0 < constructorMachTime (timestamps d)
                        then (durations d)\<lparr>totalPreMainMs := ms1\<rparr> else durations d)"
    by blast
  from f2(2) obtain ms2 where
    2: "durations d2 = (if 0 < firstDyldCallbackMachTime (timestamps d)
                            \<and> 0 < lastDyldCallbackMachTime (timestamps d)
                        then (durations d1)\<lparr>dylibLoadingMs := ms2\<rparr> else durations d1)"
    unfolding ts by blast
  from f3(2) obtain ms3 where
    3: "durations d3 = (if 0 < objcLoadStartMachTime (timestamps d)
                            \<and> 0 < objcLoadEndMachTime (timestamps d)
                        then (durations d2)\<lparr>objcLoadMs := ms3\<rparr> else durations d2)"
    unfolding ts by blast
  from f4(2) obtain ms4 where
    4: "durations d4 = (if 0 < constructorMachTime (timestamps d)
                            \<and> 0 < firstDyldCallbackMachTime (timestamps d)
                        then (durations d3)\<lparr>staticInitializerMs := ms4\<rparr> else durations d3)"
    unfolding ts by blast
  from f5(2) obtain ms5 where
    5: "durations d5 = (if 0 < lastDyldCallbackMachTime (timestamps d)
                        then (durations d4)\<lparr>postDyldToMainMs := ms5\<rparr> else durations d4)"
    unfolding ts by blast
  from f6(2) obtain e where
    6: "durations d' = (if 0 < processStartTimeUnixMicros (timestamps d)
                        then (durations d5)\<lparr>estimatedKernelToConstructorMs := e\<rparr>
                        else durations d5)"
    unfolding ts by blast
  show ?thesis
    unfolding Let_def
    apply (rule exI [of _ ms1], rule exI [of _ ms2], rule exI [of _ ms3])
    apply (rule exI [of _ ms4], rule exI [of _ ms5], rule exI [of _ e])
    apply (simp only: ts mk 6 5 4 3 2 1)
    done
qed

text \<open>
  A run of \<open>dp_calculate_durations\<close> leaves a duration field as it was whenever one
  of the timestamps its block tests is zero. The last block tests
  \<open>processStartTimeUnixMicros\<close> alone.
\<close>

lemma dp_calculate_durations_frame:
  assumes run: "dp_calculate_durations tbi now machNow d = Some d'"
  shows "(constructorMachTime (timestamps d) = 0 \<or> mainExecutedMachTime (timestamps d) = 0
            \<longrightarrow> totalPreMainMs (durations d') = totalPreMainMs (durations d)) \<and>
         (firstDyldCallbackMachTime (timestamps d) = 0
            \<or> lastDyldCallbackMachTime (timestamps d) = 0
            \<or> mainExecutedMachTime (timestamps d) = 0
            \<longrightarrow> dylibLoadingMs (durations d') = dylibLoadingMs (durations d)) \<and>
         (objcLoadStartMachTime (timestamps d) = 0
            \<or> objcLoadEndMachTime (timestamps d) = 0
            \<or> mainExecutedMachTime (timestamps d) = 0
            \<longrightarrow> objcLoadMs (durations d') = objcLoadMs (durations d)) \<and>
         (constructorMachTime (timestamps d) = 0
            \<or> firstDyldCallbackMachTime (timestamps d) = 0
            \<or> mainExecutedMachTime (timestamps d) = 0
            \<longrightarrow> staticInitializerMs (durations d') = staticInitializerMs (durations d)) \<and>
         (lastDyldCallbackMachTime (timestamps d) = 0
            \<or> mainExecutedMachTime (timestamps d) = 0
            \<longrightarrow> postDyldToMainMs (durations d') = postDyldToMainMs (durations d)) \<and>
         (processStartTimeUnixMicros (timestamps d) = 0
            \<or> mainExecutedMachTime (timestamps d) = 0
            \<longrightarrow> estimatedKernelToConstructorMs (durations d')
                  = estimatedKernelToConstructorMs (durations d))"
proof (cases "mainExecutedMarked d \<and> mainExecutedMachTime (timestamps d) \<noteq> 0")
  case False
  then have "d' = d"
    using run by (auto simp: dp_calculate_durations_def)
  then show ?thesis
    by simp
next
  case True
  from dp_calculate_durations_blocks [OF run] True obtain ms1 ms2 ms3 ms4 ms5 e where
    dur: "durations d' =
        (let ts = timestamps d;
             dur = durations d;
             dur = (if 0 < constructorMachTime ts then dur\<lparr>totalPreMainMs := ms1\<rparr> else dur);
             dur = (if 0 < firstDyldCallbackMachTime ts \<and> 0 < lastDyldCallbackMachTime ts
                    then dur\<lparr>dylibLoadingMs := ms2\<rparr> else dur);
             dur = (if 0 < objcLoadStartMachTime ts \<and> 0 < objcLoadEndMachTime ts
                    then dur\<lparr>objcLoadMs := ms3\<rparr> else dur);
             dur = (if 0 < constructorMachTime ts \<and> 0 < firstDyldCallbackMachTime ts
                    then dur\<lparr>staticInitializerMs := ms4\<rparr> else dur);
             dur = (if 0 < lastDyldCallbackMachTime ts
                    then dur\<lparr>postDyldToMainMs := ms5\<rparr> else dur)
         in if 0 < processStartTimeUnixMicros ts
            then dur\<lparr>estimatedKernelToConstructorMs := e\<rparr> else dur)"
    by blast
  have 1: "constructorMachTime (timestamps d) = 0
             \<Longrightarrow> totalPreMainMs (durations d') = totalPreMainMs (durations d)"
    by (simp add: dur Let_def)
  have 2: "firstDyldCallbackMachTime (timestamps d) = 0
            \<or> lastDyldCallbackMachTime (timestamps d) = 0
             \<Longrightarrow> dylibLoadingMs (durations d') = dylibLoadingMs (durations d)"
    by (auto simp: dur Let_def)
  have 3: "objcLoadStartMachTime (timestamps d) = 0
            \<or> objcLoadEndMachTime (timestamps d) = 0
             \<Longrightarrow> objcLoadMs (durations d') = objcLoadMs (durations d)"
    by (auto simp: dur Let_def)
  have 4: "constructorMachTime (timestamps d) = 0
            \<or> firstDyldCallbackMachTime (timestamps d) = 0
             \<Longrightarrow> staticInitializerMs (durations d') = staticInitializerMs (durations d)"
    by (auto simp: dur Let_def)
  have 5: "lastDyldCallbackMachTime (timestamps d) = 0
             \<Longrightarrow> postDyldToMainMs (durations d') = postDyldToMainMs (durations d)"
    by (simp add: dur Let_def)
  have 6: "processStartTimeUnixMicros (timestamps d) = 0
             \<Longrightarrow> estimatedKernelToConstructorMs (durations d')
                  = estimatedKernelToConstructorMs (durations d)"
    by (simp add: dur Let_def)
  show ?thesis
    using True 1 2 3 4 5 6 by blast
qed

section \<open>Marking the entry point\<close>

lemma dp_calculate_durations_marked:
  assumes "dp_calculate_durations tbi now machNow d = Some d'" and "mainExecutedMarked d"
  shows "mainExecutedMarked d'"
proof (cases "mainExecutedMachTime (timestamps d) = 0")
  case True
  then show ?thesis using assms by (simp add: dp_calculate_durations_def)
next
  case False
  then show ?thesis using dp_calculate_durations_blocks [OF assms] by blast
qed

lemma DPPreMainMarkMainExecuted_marked:
  assumes "DPPreMainMarkMainExecuted tbi t now machNow g = Some g'"
  shows "mainExecutedMarked (g_preMainData g')"
  using assms
  by (auto simp: DPPreMainMarkMainExecuted_def Let_def
      split: if_splits option.splits dest: dp_calculate_durations_marked)

text \<open>
  Claim C6: once \<open>DPPreMainMarkMainExecuted\<close> has returned, a second call, at any
  later clock readings, returns the same globals: \<open>mainExecutedMachTime\<close>,
  \<open>mainExecutedMarked\<close> and every duration stay as the first call left them.
\<close>

theorem DPPreMainMarkMainExecuted_twice:
  assumes "DPPreMainMarkMainExecuted tbi t1 now1 machNow1 g = Some g1"
  shows "DPPreMainMarkMainExecuted tbi t2 now2 machNow2 g1 = Some g1"
  using DPPreMainMarkMainExecuted_marked [OF assms]
  by (simp add: DPPreMainMarkMainExecuted_def)


text \<open>The scenario of the specification: the first call computes 0.005, 0.0038,
  0.0002 and 0.001 ms, and the second call changes nothing.\<close>

theorem DPPreMainMarkMainExecuted_twice_witness:
  "DPPreMainMarkMainExecuted tb_1_3 6000 epoch 0 before_main = Some after_main \<and>
   DPPreMainMarkMainExecuted tb_1_3 9999 tv_1001_micros 7 after_main = Some after_main"
proof -
  have first: "DPPreMainMarkMainExecuted tb_1_3 6000 epoch 0 before_main = Some after_main"
    by (simp add: DPPreMainMarkMainExecuted_def before_main_def after_main_def g_zero_def
        dp_calculate_durations_def snapshot_def zero_DPPreMainData_def
        zero_DPPreMainTimestamps_def zero_DPPreMainDurations_def Let_def
        assign_millis_initialized)
  show ?thesis
    using first DPPreMainMarkMainExecuted_twice [OF first, of 9999 tv_1001_micros 7] by simp
qed


section \<open>Properties of the ledger\<close>

lemmas eval_defs = dp_dyld_image_added_callback_def Let_def dp_premain_init_def g_zero_def
  zero_DPPreMainData_def zero_DPPreMainTimestamps_def zero_DPPreMainDurations_def
  capacity_def DPMachTimeToNanos_def dp_initialize_timebase_def dp_is_system_library_def
  systemPrefixes_def tb_125_3_def constructed_def libobjc_def demo_app_def
  dp_get_process_start_time_unix_micros_def DPPreMainSetDylibDetailEnabled_def
  started_def g_static_def DP_MAX_DYLIB_COUNT_def

lemma callback_disabled:
  assumes "\<not> dylibDetailEnabled (g_preMainData g)"
  shows "dp_dyld_image_added_callback tbi t path sl g =
           Some (g\<lparr>g_preMainData := (g_preMainData g)
                     \<lparr>timestamps := (timestamps (g_preMainData g))
                        \<lparr>firstDyldCallbackMachTime :=
                           (if firstDyldCallbackMachTime (timestamps (g_preMainData g)) = 0
                            then t
                            else firstDyldCallbackMachTime (timestamps (g_preMainData g))),
                         lastDyldCallbackMachTime := t\<rparr>\<rparr>,
                   g_dylibIndex := g_dylibIndex g + 1\<rparr>)"
  using assms by (simp add: dp_dyld_image_added_callback_def Let_def)

text \<open>
  Claim C2, as the code has it. With detail recording enabled, an event that arrives
  when the write cursor has reached the capacity updates the first and last load
  timestamps and advances the cursor, and nothing else: \<open>dylibCount\<close>,
  \<open>systemDylibCount\<close>, \<open>userDylibCount\<close> and the ledger stay as they are.
\<close>

theorem image_added_beyond_capacity:
  assumes "dylibDetailEnabled (g_preMainData g)"
    and "capacity g \<le> unat (g_dylibIndex g)"
  shows "dp_dyld_image_added_callback tbi t path sl g =
           Some (g\<lparr>g_preMainData := (g_preMainData g)
                     \<lparr>timestamps := (timestamps (g_preMainData g))
                        \<lparr>firstDyldCallbackMachTime :=
                           (if firstDyldCallbackMachTime (timestamps (g_preMainData g)) = 0
                            then t
                            else firstDyldCallbackMachTime (timestamps (g_preMainData g))),
                         lastDyldCallbackMachTime := t\<rparr>\<rparr>,
                   g_dylibIndex := g_dylibIndex g + 1\<rparr>)"
  using assms by (simp add: dp_dyld_image_added_callback_def Let_def)

text \<open>The third event on a ledger of two slots: the count stays 2, the ledger is
  untouched, the last load tick is the event's and the cursor is 3.\<close>

theorem image_added_beyond_capacity_witness:
  "map_option (dylibCount \<circ> g_preMainData)
     (dp_dyld_image_added_callback tb_125_3 1400 (Some libobjc) 0 full_ledger)
     = Some (dylibCount (g_preMainData full_ledger)) \<and>
   dylibCount (g_preMainData full_ledger) = 2 \<and>
   map_option g_dylibLoadInfos
     (dp_dyld_image_added_callback tb_125_3 1400 (Some libobjc) 0 full_ledger)
     = Some (g_dylibLoadInfos full_ledger) \<and>
   map_option (lastDyldCallbackMachTime \<circ> timestamps \<circ> g_preMainData)
     (dp_dyld_image_added_callback tb_125_3 1400 (Some libobjc) 0 full_ledger) = Some 1400 \<and>
   map_option g_dylibIndex
     (dp_dyld_image_added_callback tb_125_3 1400 (Some libobjc) 0 full_ledger) = Some 3"
proof -
  have hyp: "dylibDetailEnabled (g_preMainData full_ledger)"
    "capacity full_ledger \<le> unat (g_dylibIndex full_ledger)"
    "dylibCount (g_preMainData full_ledger) = 2" "g_dylibIndex full_ledger = 2"
    by (simp_all add: full_ledger_def two_loads_def eval_defs)
  show ?thesis
    using image_added_beyond_capacity [OF hyp(1,2), of tb_125_3 1400 "Some libobjc" 0] hyp(3,4)
    by simp
qed

text \<open>
  Claim C2 as stated fails: after three events on a ledger of capacity 2,
  \<open>DPPreMainGetAllDylibs\<close> returns 2 records and \<open>dylibCount\<close> is 2, not 3.
\<close>

theorem three_loads_capacity_two:
  "map_option (dylibCount \<circ> g_preMainData) (run tb_125_3 three_loads (constructed 2)) = Some 2
   \<and> map_option (fst \<circ> DPPreMainGetAllDylibs (Some (replicate 8 zero_DPDylibLoadInfo)) 8)
        (run tb_125_3 three_loads (constructed 2)) = Some 2"
  by (simp add: three_loads_def two_loads_def eval_defs DPPreMainGetAllDylibs_def)

lemma GetAll_empty:
  assumes "dylibCount (g_preMainData g) = 0"
  shows "DPPreMainGetAllDylibs outBuffer bufferSize g = (0, outBuffer)"
  using assms
  by (simp add: DPPreMainGetAllDylibs_def Let_def memcpy_def split: option.splits)

text \<open>
  Claim C3, as the code has it. When detail recording is disabled and no record has
  been counted yet, any sequence of N load events leaves \<open>dylibCount\<close> at 0, the
  other two counters and the ledger as they are, and \<open>DPPreMainGetAllDylibs\<close>
  returns 0 records and leaves the buffer alone. Only the write cursor
  \<open>g_dylibIndex\<close>, which no query returns, advances by N (modulo \<open>2^32\<close>).
\<close>

theorem loads_while_detail_disabled:
  assumes "\<not> dylibDetailEnabled (g_preMainData g)"
    and "dylibCount (g_preMainData g) = 0"
  shows "\<exists>g'. run tbi (map (\<lambda>(t, path, sl). Image_added t path sl) events) g = Some g' \<and>
           DPPreMainGetAllDylibs outBuffer bufferSize g' = (0, outBuffer) \<and>
           dylibCount (g_preMainData g') = 0 \<and>
           systemDylibCount (g_preMainData g') = systemDylibCount (g_preMainData g) \<and>
           userDylibCount (g_preMainData g') = userDylibCount (g_preMainData g) \<and>
           g_dylibLoadInfos g' = g_dylibLoadInfos g \<and>
           g_dylibIndex g' = g_dylibIndex g + of_nat (length events)"
  using assms
proof (induction events arbitrary: g)
  case Nil
  then show ?case
    by (simp add: GetAll_empty)
next
  case (Cons e events)
  obtain t path sl where e: "e = (t, path, sl)"
    by (cases e)
  let ?g1 = "g\<lparr>g_preMainData := (g_preMainData g)
                     \<lparr>timestamps := (timestamps (g_preMainData g))
                        \<lparr>firstDyldCallbackMachTime :=
                           (if firstDyldCallbackMachTime (timestamps (g_preMainData g)) = 0
                            then t
                            else firstDyldCallbackMachTime (timestamps (g_preMainData g))),
                         lastDyldCallbackMachTime := t\<rparr>\<rparr>,
                   g_dylibIndex := g_dylibIndex g + 1\<rparr>"
  have step: "dp_dyld_image_added_callback tbi t path sl g = Some ?g1"
    using Cons.prems(1) by (rule callback_disabled)
  have "\<not> dylibDetailEnabled (g_preMainData ?g1)" "dylibCount (g_preMainData ?g1) = 0"
    using Cons.prems by simp_all
  from Cons.IH [OF this] obtain g' where
    run: "run tbi (map (\<lambda>(t, path, sl). Image_added t path sl) events) ?g1 = Some g'"
    and rest: "DPPreMainGetAllDylibs outBuffer bufferSize g' = (0, outBuffer)"
      "dylibCount (g_preMainData g') = 0"
      "systemDylibCount (g_preMainData g') = systemDylibCount (g_preMainData ?g1)"
      "userDylibCount (g_preMainData g') = userDylibCount (g_preMainData ?g1)"
      "g_dylibLoadInfos g' = g_dylibLoadInfos ?g1"
      "g_dylibIndex g' = g_dylibIndex ?g1 + of_nat (length events)"
    by blast
  have "run tbi (map (\<lambda>(t, path, sl). Image_added t path sl) (e # events)) g = Some g'"
    using step run by (simp add: e)
  then show ?case
    using rest by simp
qed

theorem loads_while_detail_disabled_witness:
  "\<exists>g'. run tb_125_3 [Image_added 1200 (Some libobjc) 0, Image_added 1300 (Some demo_app) 0]
          (DPPreMainSetDylibDetailEnabled False started) = Some g' \<and>
        DPPreMainGetAllDylibs (Some (replicate 8 zero_DPDylibLoadInfo)) 8 g'
          = (0, Some (replicate 8 zero_DPDylibLoadInfo)) \<and>
        dylibCount (g_preMainData g') = 0 \<and> g_dylibIndex g' = 2"
proof -
  have hyp: "\<not> dylibDetailEnabled
                 (g_preMainData (DPPreMainSetDylibDetailEnabled False started))"
    "dylibCount (g_preMainData (DPPreMainSetDylibDetailEnabled False started)) = 0"
    "g_dylibIndex (DPPreMainSetDylibDetailEnabled False started) = 0"
    by (simp_all add: DPPreMainSetDylibDetailEnabled_def started_def g_static_def
        dp_premain_init_def g_zero_def zero_DPPreMainData_def Let_def
        dp_initialize_timebase_def)
  show ?thesis
    using loads_while_detail_disabled
      [OF hyp(1,2), of tb_125_3 "[(1200, Some libobjc, 0), (1300, Some demo_app, 0)]"
        "Some (replicate 8 zero_DPDylibLoadInfo)" 8]
    by (auto simp: hyp(3))
qed

text \<open>
  Claim C3 as stated fails: after the constructor, \<open>DPPreMainSetDylibDetailEnabled(false)\<close>
  and one load event, \<open>dylibCount\<close> is 0, not 1.
\<close>

theorem load_while_disabled_not_counted:
  "map_option (dylibCount \<circ> g_preMainData)
     (run tb_125_3 [SetDylibDetailEnabled False, Image_added 1200 (Some libobjc) 0]
        started) = Some 0"
  by (simp add: eval_defs)

text \<open>
  Claim C4 at the sequence: constructor, \<open>DPPreMainSetDylibDetailEnabled(false)\<close>, a
  load event, \<open>DPPreMainSetDylibDetailEnabled(true)\<close>, a load event. The event that
  arrives while recording is disabled advances the write cursor, and the next
  recorded event sets \<open>dylibCount\<close> to its index plus one: \<open>dylibCount\<close> is 2 while
  \<open>systemDylibCount + userDylibCount\<close> is 1.
\<close>

theorem counters_after_toggle:
  "map_option (dylibCount \<circ> g_preMainData) (run tb_125_3 toggled_loads started) = Some 2
   \<and> map_option (systemDylibCount \<circ> g_preMainData)
         (run tb_125_3 toggled_loads started) = Some 0
   \<and> map_option (userDylibCount \<circ> g_preMainData)
         (run tb_125_3 toggled_loads started) = Some 1"
  by (simp add: toggled_loads_def eval_defs)

text \<open>The classification: a path is a system library exactly when it is resolved and
  one of the five prefixes is a prefix of it.\<close>

lemma strncmp_prefix: "strncmp s p (length p) = 0 \<longleftrightarrow> prefix p s"
proof (induction p arbitrary: s)
  case Nil
  then show ?case by simp
next
  case (Cons b p)
  then show ?case
    by (cases s) auto
qed

lemma dp_is_system_library_loop_prefix:
  "dp_is_system_library_loop s ps \<longleftrightarrow> (\<exists>p \<in> set ps. prefix p s)"
  by (induction ps) (auto simp: strncmp_prefix)

lemma dp_is_system_library_prefix:
  "dp_is_system_library path \<longleftrightarrow>
     (\<exists>s. path = Some s \<and> (\<exists>p \<in> set systemPrefixes. prefix p s))"
  by (cases path) (simp_all add: dp_is_system_library_def dp_is_system_library_loop_prefix)

section \<open>Properties of the stored name\<close>

lemma strrchr_None: "strrchr p c = None \<longleftrightarrow> c \<notin> set p"
  by (induction p) (auto split: option.splits)

lemma strrchr_Some:
  "strrchr p c = Some r \<Longrightarrow> tl r = rev (takeWhile (\<lambda>x. x \<noteq> c) (rev p))"
proof (induction p arbitrary: r)
  case Nil
  then show ?case by simp
next
  case (Cons x xs)
  show ?case
  proof (cases "strrchr xs c")
    case None
    then have "c \<notin> set xs"
      by (simp add: strrchr_None)
    then have "takeWhile (\<lambda>x. x \<noteq> c) (rev xs @ [c]) = rev xs"
      by (subst takeWhile_append2) auto
    moreover from Cons.prems None have "x = c" "r = x # xs"
      by (auto split: if_splits)
    ultimately show ?thesis
      by simp
  next
    case (Some r')
    then have "r = r'"
      using Cons.prems by simp
    moreover have "c \<in> set xs"
      using Some strrchr_None [of xs c] by auto
    ultimately show ?thesis
      using Cons.IH [OF Some] by simp
  qed
qed

lemma dp_extract_filename_base: "dp_extract_filename (Some p) = base_filename p"
proof (cases "strrchr p CHR ''/''")
  case None
  then have "CHR ''/'' \<notin> set p"
    by (simp add: strrchr_None)
  then show ?thesis
    using None by (simp add: dp_extract_filename_def base_filename_def)
next
  case (Some r)
  then have "CHR ''/'' \<in> set p"
    using strrchr_None [of p "CHR ''/''"] by auto
  then show ?thesis
    using Some strrchr_Some [OF Some] by (simp add: dp_extract_filename_def base_filename_def)
qed

lemma set_base_filename: "set (base_filename p) \<subseteq> set p"
  by (auto simp: base_filename_def dest: set_takeWhileD)

lemma name_write:
  fixes fn dst :: string
  assumes len: "length dst = 256" and nonul: "NUL \<notin> set fn"
  defines "stored \<equiv> (strncpy dst fn 255)[255 := NUL]"
  shows "length stored = 256" and "stored ! 255 = NUL" and "c_str stored = take 255 fn"
proof -
  have l: "length (strncpy dst fn 255) = 256"
    using len by (simp add: strncpy_def)
  show "length stored = 256"
    by (simp add: stored_def l)
  show "stored ! 255 = NUL"
    by (simp add: stored_def l)
  have clean: "\<forall>c \<in> set (take 255 fn). c \<noteq> NUL"
    using nonul by (auto dest: in_set_takeD)
  let ?n = "min 255 (length fn)"
  have n: "?n < length stored" "?n \<le> 255"
    by (simp_all add: stored_def l)
  have tk: "take ?n stored = take 255 fn"
    by (simp add: stored_def strncpy_def min_def)
  have nth: "stored ! ?n = NUL"
  proof (cases "length fn < 255")
    case True
    then have "stored ! ?n = strncpy dst fn 255 ! length fn"
      by (simp add: stored_def)
    also have "\<dots> = NUL"
      using True by (simp add: strncpy_def nth_append)
    finally show ?thesis .
  next
    case False
    then show ?thesis
      by (simp add: stored_def l)
  qed
  have "stored = take ?n stored @ drop ?n stored"
    by simp
  also have "drop ?n stored = stored ! ?n # drop (Suc ?n) stored"
    using n(1) by (simp add: Cons_nth_drop_Suc)
  finally have "stored = take 255 fn @ NUL # drop (Suc ?n) stored"
    by (simp only: tk nth)
  then have "c_str stored
      = takeWhile (\<lambda>c. c \<noteq> NUL) (take 255 fn @ NUL # drop (Suc ?n) stored)"
    by (simp only: c_str_def)
  also have "\<dots> = take 255 fn"
    using clean by simp
  finally show "c_str stored = take 255 fn" .
qed

lemma callback_recorded:
  assumes enabled: "dylibDetailEnabled (g_preMainData g)"
    and room: "unat (g_dylibIndex g) < capacity g"
    and run: "dp_dyld_image_added_callback tbi t path sl g = Some g'"
  defines "slot \<equiv> g_dylibLoadInfos g ! unat (g_dylibIndex g)"
    and "stored \<equiv> g_dylibLoadInfos g' ! unat (g_dylibIndex g)"
  shows "g_dylibIndex g' = g_dylibIndex g + 1"
    and "dylibCount (g_preMainData g') = g_dylibIndex g + 1"
    and "capacity g' = capacity g"
    and "name stored =
           (case path of
              Some p \<Rightarrow> (strncpy (name slot) (dp_extract_filename (Some p)) 255)[255 := NUL]
            | None \<Rightarrow> strncpy (name slot) ''unknown'' 255)"
    and "isSystemLibrary stored = dp_is_system_library path"
    and "loadMachTime stored = t" and "slide stored = sl"
  using assms
  by (auto simp: dp_dyld_image_added_callback_def Let_def capacity_def
      DP_MAX_DYLIB_NAME_LENGTH_def dp_is_system_library_def
      split: if_splits option.splits)

subsection \<open>The name arrays stay terminated\<close>

lemma names_terminated_zero: "names_terminated (g_zero n)"
  by (simp add: names_terminated_def g_zero_def zero_DPDylibLoadInfo_def
      DP_MAX_DYLIB_NAME_LENGTH_def list_all_iff)

lemma strncpy_keeps_end:
  assumes "length dst = 256"
  shows "length (strncpy dst src 255) = 256" and "strncpy dst src 255 ! 255 = dst ! 255"
proof -
  let ?head = "take 255 src @ replicate (255 - length src) NUL"
  have head: "length ?head = 255"
    by simp
  have split: "strncpy dst src 255 = ?head @ drop 255 dst"
    by (simp add: strncpy_def)
  show "length (strncpy dst src 255) = 256"
    using assms by (simp add: strncpy_def)
  have "(?head @ drop 255 dst) ! (length ?head + 0) = drop 255 dst ! 0"
    by (rule nth_append_length_plus)
  then show "strncpy dst src 255 ! 255 = dst ! 255"
    unfolding split head using assms by simp
qed

lemma names_terminated_callback:
  assumes inv: "names_terminated g"
    and run: "dp_dyld_image_added_callback tbi t path sl g = Some g'"
  shows "names_terminated g'"
proof (cases "dylibDetailEnabled (g_preMainData g) \<and> unat (g_dylibIndex g) < capacity g")
  case False
  then have "g_dylibLoadInfos g' = g_dylibLoadInfos g"
    using run by (auto simp: dp_dyld_image_added_callback_def Let_def split: if_splits)
  then show ?thesis
    using inv by (simp add: names_terminated_def)
next
  case True
  let ?i = "unat (g_dylibIndex g)"
  let ?slot = "g_dylibLoadInfos g ! ?i"
  have slot: "length (name ?slot) = 256" "name ?slot ! 255 = NUL"
    using inv True
    by (simp_all add: names_terminated_def capacity_def list_all_length
        DP_MAX_DYLIB_NAME_LENGTH_def)
  from run True obtain r where
    g': "g_dylibLoadInfos g' = (g_dylibLoadInfos g)[?i := r]"
    and r: "name r = (case path of
              Some p \<Rightarrow> (strncpy (name ?slot) (dp_extract_filename (Some p)) 255)[255 := NUL]
            | None \<Rightarrow> strncpy (name ?slot) ''unknown'' 255)"
    by (auto simp: dp_dyld_image_added_callback_def Let_def DP_MAX_DYLIB_NAME_LENGTH_def
        split: if_splits option.splits)
  have "length (name r) = 256 \<and> name r ! 255 = NUL"
    using slot strncpy_keeps_end [OF slot(1)] by (cases path) (simp_all add: r)
  moreover have "set ((g_dylibLoadInfos g)[?i := r]) \<subseteq> insert r (set (g_dylibLoadInfos g))"
    by (rule set_update_subset_insert)
  ultimately show ?thesis
    using inv unfolding g' names_terminated_def
    by (auto simp: list_all_iff DP_MAX_DYLIB_NAME_LENGTH_def)
qed

lemma names_terminated_step:
  assumes "names_terminated g" and "step tbi c g = Some g'"
  shows "names_terminated g'"
proof (cases c)
  case (Image_added t path sl)
  then show ?thesis
    using assms names_terminated_callback by simp
next
  case Reset
  then show ?thesis
    using assms
    by (auto simp: names_terminated_def DPPreMainReset_def zero_DPDylibLoadInfo_def
        DP_MAX_DYLIB_NAME_LENGTH_def list_all_iff)
next
  case (MarkMainExecuted t now machNow)
  then have "g_dylibLoadInfos g' = g_dylibLoadInfos g"
    using assms(2)
    by (auto simp: DPPreMainMarkMainExecuted_def Let_def split: if_splits option.splits)
  then show ?thesis
    using assms(1) by (simp add: names_terminated_def)
next
  case (Premain_init t kinfo)
  then have "g_dylibLoadInfos g' = g_dylibLoadInfos g"
    using assms(2) by (auto simp: dp_premain_init_def Let_def split: if_splits)
  then show ?thesis
    using assms(1) by (simp add: names_terminated_def)
next
  case (MarkObjCLoadStart t)
  then have "g_dylibLoadInfos g' = g_dylibLoadInfos g"
    using assms(2) by (auto simp: DPPreMainMarkObjCLoadStart_def Let_def split: if_splits)
  then show ?thesis
    using assms(1) by (simp add: names_terminated_def)
next
  case (MarkObjCLoadEnd t)
  then have "g_dylibLoadInfos g' = g_dylibLoadInfos g"
    using assms(2) by (auto simp: DPPreMainMarkObjCLoadEnd_def Let_def split: if_splits)
  then show ?thesis
    using assms(1) by (simp add: names_terminated_def)
next
  case (SetDylibDetailEnabled b)
  then have "g_dylibLoadInfos g' = g_dylibLoadInfos g"
    using assms(2) by (auto simp: DPPreMainSetDylibDetailEnabled_def)
  then show ?thesis
    using assms(1) by (simp add: names_terminated_def)
qed

lemma names_terminated_run:
  assumes "names_terminated g" and "run tbi cs g = Some g'"
  shows "names_terminated g'"
  using assms
proof (induction cs arbitrary: g)
  case Nil
  then show ?case by simp
next
  case (Cons c cs)
  then show ?case
    by (auto split: option.splits dest: names_terminated_step)
qed

subsection \<open>The name of a recorded image\<close>

text \<open>
  Claim C10: when the callback records an image whose path is resolved, in a state
  whose name arrays are terminated (every state the operations reach from the zeroed
  statics, by \<open>names_terminated_run\<close>), the name in the ledger slot fills its 256
  bytes, its last byte is NUL, and the C string in it is the first 255 characters of
  the base filename (the substring after the last \<open>'/'\<close> of the path, or the whole
  path if it has none): a longer filename is truncated.
\<close>

theorem stored_name_is_truncated_filename:
  assumes enabled: "dylibDetailEnabled (g_preMainData g)"
    and room: "unat (g_dylibIndex g) < capacity g"
    and inv: "names_terminated g"
    and nonul: "NUL \<notin> set p"
    and run: "dp_dyld_image_added_callback tbi t (Some p) sl g = Some g'"
  shows "length (name (g_dylibLoadInfos g' ! unat (g_dylibIndex g))) = 256 \<and>
         name (g_dylibLoadInfos g' ! unat (g_dylibIndex g)) ! 255 = NUL \<and>
         c_str (name (g_dylibLoadInfos g' ! unat (g_dylibIndex g)))
           = take 255 (base_filename p)"
proof -
  have len: "length (name (g_dylibLoadInfos g ! unat (g_dylibIndex g)))
               = DP_MAX_DYLIB_NAME_LENGTH"
    using inv room by (simp add: names_terminated_def capacity_def list_all_length)
  have stored: "name (g_dylibLoadInfos g' ! unat (g_dylibIndex g)) =
      (strncpy (name (g_dylibLoadInfos g ! unat (g_dylibIndex g))) (base_filename p) 255)
        [255 := NUL]"
    using callback_recorded(4) [OF enabled room run]
    by (simp add: dp_extract_filename_base)
  have "NUL \<notin> set (base_filename p)"
    using nonul set_base_filename [of p] by auto
  from name_write [OF _ this, of "name (g_dylibLoadInfos g ! unat (g_dylibIndex g))"] len
  show ?thesis
    unfolding stored by (simp add: DP_MAX_DYLIB_NAME_LENGTH_def)
qed

theorem stored_name_is_truncated_filename_witness:
  "length (name (g_dylibLoadInfos
      (the (dp_dyld_image_added_callback tb_125_3 1200 (Some libobjc) 0 (constructed 2))) ! 0))
     = 256 \<and>
   c_str (name (g_dylibLoadInfos
      (the (dp_dyld_image_added_callback tb_125_3 1200 (Some libobjc) 0 (constructed 2))) ! 0))
     = ''libobjc.A.dylib''"
proof -
  let ?g = "constructed 2"
  let ?r = "dp_dyld_image_added_callback tb_125_3 1200 (Some libobjc) 0 ?g"
  have hyp: "dylibDetailEnabled (g_preMainData ?g)" "unat (g_dylibIndex ?g) < capacity ?g"
    "names_terminated ?g" "NUL \<notin> set libobjc"
    by (simp_all add: constructed_def dp_premain_init_def g_zero_def Let_def capacity_def
        names_terminated_def list_all_iff zero_DPDylibLoadInfo_def
        DP_MAX_DYLIB_NAME_LENGTH_def libobjc_def NUL_def)
  have "?r \<noteq> None"
    by (simp add: eval_defs)
  then have run: "?r = Some (the ?r)"
    by simp
  have idx: "unat (g_dylibIndex ?g) = 0"
    by (simp add: constructed_def dp_premain_init_def g_zero_def Let_def)
  have base: "take 255 (base_filename libobjc) = ''libobjc.A.dylib''"
    by (simp add: base_filename_def libobjc_def)
  show ?thesis
    using stored_name_is_truncated_filename [OF hyp run]
    unfolding idx base by simp
qed

section \<open>Properties of the reset\<close>

lemma GetSlowest_empty:
  assumes "dylibCount (g_preMainData g) = 0"
  shows "DPPreMainGetSlowestDylibs malloc_ok outBuffer count g = (0, outBuffer)"
  using assms
  by (simp add: DPPreMainGetSlowestDylibs_def Let_def memcpy_def split: option.splits)

lemma DPPreMainReset_fields:
  "g_preMainData (DPPreMainReset tbi g) =
     zero_DPPreMainData
       \<lparr>dylibDetailEnabled := True, timebaseNumer := numer tbi, timebaseDenom := denom tbi\<rparr>"
  "g_dylibLoadInfos (DPPreMainReset tbi g) = replicate (capacity g) zero_DPDylibLoadInfo"
  "g_dylibIndex (DPPreMainReset tbi g) = 0"
  "g_initialized (DPPreMainReset tbi g) = g_initialized g"
  by (simp_all add: DPPreMainReset_def dp_initialize_timebase_def)

lemma first_event_after_reset:
  assumes "0 < capacity g"
  shows "\<exists>g'. dp_dyld_image_added_callback tbi t path sl (DPPreMainReset tbi g) = Some g' \<and>
           g_dylibIndex g' = 1 \<and> dylibCount (g_preMainData g') = 1 \<and>
           loadMachTime (g_dylibLoadInfos g' ! 0) = t \<and>
           slide (g_dylibLoadInfos g' ! 0) = sl \<and>
           loadDurationNanos (g_dylibLoadInfos g' ! 0) = 0 \<and>
           isSystemLibrary (g_dylibLoadInfos g' ! 0) = dp_is_system_library path \<and>
           (\<forall>i. 0 < i \<longrightarrow>
              g_dylibLoadInfos g' ! i = g_dylibLoadInfos (DPPreMainReset tbi g) ! i)"
  using assms
  by (cases path)
    (simp_all add: dp_dyld_image_added_callback_def Let_def DPPreMainReset_fields capacity_def
      zero_DPPreMainData_def zero_DPPreMainTimestamps_def dp_is_system_library_def)

text \<open>
  Claim C9: after \<open>DPPreMainReset\<close>, from any state, all timestamps, durations and
  counters are zero, every ledger slot is zero, the write cursor is 0, detail
  recording is enabled and the timebase is the one \<open>mach_timebase_info\<close> reports;
  \<open>DPPreMainGetDylibInfo\<close> returns \<open>NULL\<close>, \<open>DPPreMainGetAllDylibs\<close> and
  \<open>DPPreMainGetSlowestDylibs\<close> return 0 records; and the next load event is recorded
  in slot 0.
\<close>

theorem DPPreMainReset_restores_initial_state:
  "DPPreMainReset tbi g =
     \<lparr>g_preMainData =
        zero_DPPreMainData
          \<lparr>dylibDetailEnabled := True, timebaseNumer := numer tbi, timebaseDenom := denom tbi\<rparr>,
      g_dylibLoadInfos = replicate (capacity g) zero_DPDylibLoadInfo,
      g_dylibIndex = 0, g_initialized = g_initialized g\<rparr>
   \<and> DPPreMainGetData (DPPreMainReset tbi g) =
       zero_DPPreMainData
          \<lparr>dylibDetailEnabled := True, timebaseNumer := numer tbi, timebaseDenom := denom tbi\<rparr>
   \<and> DPPreMainGetDylibInfo index (DPPreMainReset tbi g) = None
   \<and> DPPreMainGetAllDylibs outBuffer bufferSize (DPPreMainReset tbi g) = (0, outBuffer)
   \<and> DPPreMainGetSlowestDylibs malloc_ok outBuffer count (DPPreMainReset tbi g) = (0, outBuffer)
   \<and> (0 < capacity g \<longrightarrow>
        (\<exists>g'. dp_dyld_image_added_callback tbi t path sl (DPPreMainReset tbi g) = Some g' \<and>
           g_dylibIndex g' = 1 \<and> dylibCount (g_preMainData g') = 1 \<and>
           loadMachTime (g_dylibLoadInfos g' ! 0) = t \<and>
           slide (g_dylibLoadInfos g' ! 0) = sl \<and>
           loadDurationNanos (g_dylibLoadInfos g' ! 0) = 0 \<and>
           isSystemLibrary (g_dylibLoadInfos g' ! 0) = dp_is_system_library path \<and>
           (\<forall>i. 0 < i \<longrightarrow>
              g_dylibLoadInfos g' ! i = g_dylibLoadInfos (DPPreMainReset tbi g) ! i)))"
proof -
  have "DPPreMainReset tbi g =
     \<lparr>g_preMainData =
        zero_DPPreMainData
          \<lparr>dylibDetailEnabled := True, timebaseNumer := numer tbi, timebaseDenom := denom tbi\<rparr>,
      g_dylibLoadInfos = replicate (capacity g) zero_DPDylibLoadInfo,
      g_dylibIndex = 0, g_initialized = g_initialized g\<rparr>"
    by (cases g) (simp add: DPPreMainReset_def dp_initialize_timebase_def)
  moreover have "DPPreMainGetData (DPPreMainReset tbi g) =
       zero_DPPreMainData
          \<lparr>dylibDetailEnabled := True, timebaseNumer := numer tbi, timebaseDenom := denom tbi\<rparr>"
    by (simp add: DPPreMainGetData_def DPPreMainReset_fields)
  moreover have none: "dylibCount (g_preMainData (DPPreMainReset tbi g)) = 0"
    by (simp add: DPPreMainReset_fields zero_DPPreMainData_def)
  then have "DPPreMainGetDylibInfo index (DPPreMainReset tbi g) = None"
    by (simp add: DPPreMainGetDylibInfo_def)
  moreover have "DPPreMainGetAllDylibs outBuffer bufferSize (DPPreMainReset tbi g)
      = (0, outBuffer)"
    using none by (rule GetAll_empty)
  moreover have "DPPreMainGetSlowestDylibs malloc_ok outBuffer count (DPPreMainReset tbi g)
      = (0, outBuffer)"
    using none by (rule GetSlowest_empty)
  ultimately show ?thesis
    using first_event_after_reset [of g tbi t path sl] by blast
qed

theorem DPPreMainReset_restores_initial_state_witness:
  "0 < capacity dirty \<and>
   g_dylibIndex dirty = 7 \<and> mainExecutedMarked (g_preMainData dirty) \<and>
   DPPreMainReset tb_125_3 dirty =
     \<lparr>g_preMainData =
        zero_DPPreMainData\<lparr>dylibDetailEnabled := True, timebaseNumer := 125, timebaseDenom := 3\<rparr>,
      g_dylibLoadInfos = [zero_DPDylibLoadInfo], g_dylibIndex = 0, g_initialized = True\<rparr> \<and>
   (\<exists>g'. dp_dyld_image_added_callback tb_125_3 1200 (Some libobjc) 0
            (DPPreMainReset tb_125_3 dirty) = Some g' \<and>
         g_dylibIndex g' = 1 \<and> dylibCount (g_preMainData g') = 1 \<and>
         loadMachTime (g_dylibLoadInfos g' ! 0) = 1200)"
proof -
  have cap: "capacity dirty = 1" "g_dylibIndex dirty = 7" "g_initialized dirty"
    "mainExecutedMarked (g_preMainData dirty)"
    by (simp_all add: dirty_def after_main_def g_zero_def capacity_def snapshot_def
        zero_DPPreMainData_def)
  show ?thesis
    using DPPreMainReset_restores_initial_state
      [where g = dirty and tbi = tb_125_3 and t = 1200 and path = "Some libobjc" and sl = 0
        and index = 0 and outBuffer = None and bufferSize = 0 and malloc_ok = True
        and count = 0]
    by (auto simp: cap tb_125_3_def)
qed

section \<open>Properties of the slowest-modules query\<close>

lemma length_qsort_insert: "length (qsort_insert compar x ys) = Suc (length ys)"
  by (induction ys) simp_all

lemma length_qsort: "length (qsort xs compar) = length xs"
  by (induction xs) (simp_all add: length_qsort_insert)

lemma set_qsort_insert: "set (qsort_insert compar x ys) = insert x (set ys)"
  by (induction ys) auto

lemma set_qsort: "set (qsort xs compar) = set xs"
  by (induction xs) (simp_all add: set_qsort_insert)

lemma compare_le_0:
  "dp_compare_dylib_by_duration a b \<le> 0 \<longleftrightarrow> loadDurationNanos b \<le> loadDurationNanos a"
  by (auto simp: dp_compare_dylib_by_duration_def)

lemma slower_first_insert:
  assumes "sorted_wrt (\<lambda>a b. loadDurationNanos b \<le> loadDurationNanos a) ys"
  shows "sorted_wrt (\<lambda>a b. loadDurationNanos b \<le> loadDurationNanos a)
           (qsort_insert dp_compare_dylib_by_duration x ys)"
  using assms
proof (induction ys)
  case Nil
  then show ?case by simp
next
  case (Cons y ys)
  show ?case
  proof (cases "dp_compare_dylib_by_duration x y \<le> 0")
    case True
    then have "loadDurationNanos y \<le> loadDurationNanos x"
      by (simp add: compare_le_0)
    then show ?thesis
      using True Cons.prems by auto
  next
    case False
    then have "loadDurationNanos x \<le> loadDurationNanos y"
      by (simp add: compare_le_0)
    then show ?thesis
      using False Cons by (auto simp: set_qsort_insert)
  qed
qed

lemma slower_first_qsort:
  "sorted_wrt (\<lambda>a b. loadDurationNanos b \<le> loadDurationNanos a)
     (qsort xs dp_compare_dylib_by_duration)"
  by (induction xs) (simp_all add: slower_first_insert)

lemma unat_totalCount:
  fixes c :: u32
  shows "unat (if n < unat c then of_nat n else c) = min (unat c) n"
proof (cases "n < unat c")
  case True
  have "unat c < 2 ^ 32"
    using unsigned_less [of c, where 'a = nat] by simp
  then have "n < 2 ^ 32"
    using True by simp
  then have "unat (of_nat n :: u32) = n"
    by (simp add: unat_of_nat)
  then show ?thesis
    using True by simp
next
  case False
  then show ?thesis by simp
qed

text \<open>
  Claim C8, as the code has it. With a \<open>NULL\<close> buffer or \<open>count = 0\<close> the call
  returns 0. With a buffer and \<open>count > 0\<close> it returns \<open>min(count, T)\<close> records, \<open>T\<close>
  being \<open>dylibCount\<close> capped at the capacity, when \<open>malloc\<close> gives the temporary
  buffer, and 0 records when \<open>malloc\<close> fails. The records returned are records of the
  ledger, and for positions \<open>i < j\<close> among them the duration at \<open>i\<close> is at least the
  duration at \<open>j\<close>.
\<close>

theorem DPPreMainGetSlowestDylibs_result:
  "DPPreMainGetSlowestDylibs malloc_ok None count g = (0, None) \<and>
   DPPreMainGetSlowestDylibs malloc_ok (Some buf) 0 g = (0, Some buf) \<and>
   (count \<noteq> 0 \<longrightarrow>
      (\<exists>k out. DPPreMainGetSlowestDylibs malloc_ok (Some buf) count g = (k, Some out) \<and>
         unat k =
           (if malloc_ok
            then min (unat count) (min (unat (dylibCount (g_preMainData g))) (capacity g))
            else 0) \<and>
         set (take (unat k) out) \<subseteq> set (g_dylibLoadInfos g) \<and>
         (\<forall>i j. i < j \<and> j < unat k \<longrightarrow>
            loadDurationNanos (out ! j) \<le> loadDurationNanos (out ! i))))"
proof -
  let ?total = "if capacity g < unat (dylibCount (g_preMainData g))
                then of_nat (capacity g) else dylibCount (g_preMainData g) :: u32"
  let ?T = "min (unat (dylibCount (g_preMainData g))) (capacity g)"
  let ?tmp = "qsort (take (unat ?total) (g_dylibLoadInfos g)) dp_compare_dylib_by_duration"
  let ?k = "if count < ?total then count else ?total"
  let ?out = "memcpy buf ?tmp (unat ?k)"
  have T: "unat ?total = ?T"
    by (rule unat_totalCount)
  have len: "length ?tmp = ?T"
  proof -
    have "length ?tmp = min (length (g_dylibLoadInfos g)) (unat ?total)"
      by (simp only: length_qsort length_take)
    also have "\<dots> = ?T"
      unfolding T by (simp add: capacity_def)
    finally show ?thesis .
  qed
  have k: "unat ?k = min (unat count) ?T"
    by (auto simp: T [symmetric] word_less_nat_alt simp del: T)
  have kl: "unat ?k \<le> length ?tmp"
    unfolding len k by (rule min.cobounded2)
  have tk: "take (unat ?k) ?out = take (unat ?k) ?tmp"
    using kl by (simp add: memcpy_def)
  have sub: "set (take (unat ?k) ?out) \<subseteq> set (g_dylibLoadInfos g)"
  proof -
    have "set (take (unat ?k) ?tmp) \<subseteq> set ?tmp"
      by (rule set_take_subset)
    also have "\<dots> \<subseteq> set (g_dylibLoadInfos g)"
      unfolding set_qsort by (rule set_take_subset)
    finally show ?thesis
      unfolding tk .
  qed
  have sorted: "loadDurationNanos (?out ! j) \<le> loadDurationNanos (?out ! i)"
    if "i < j" "j < unat ?k" for i j
  proof -
    have "?out ! i = ?tmp ! i" "?out ! j = ?tmp ! j"
      using that kl by (simp_all add: memcpy_def nth_append)
    moreover have "j < length ?tmp"
      using that kl by simp
    ultimately show ?thesis
      using slower_first_qsort [of "take (unat ?total) (g_dylibLoadInfos g)"] that(1)
      by (simp add: sorted_wrt_iff_nth_less)
  qed
  have run: "count \<noteq> 0 \<Longrightarrow> malloc_ok \<Longrightarrow>
      DPPreMainGetSlowestDylibs malloc_ok (Some buf) count g = (?k, Some ?out)"
    by (simp add: DPPreMainGetSlowestDylibs_def Let_def)
  have fail: "count \<noteq> 0 \<Longrightarrow> \<not> malloc_ok \<Longrightarrow>
      DPPreMainGetSlowestDylibs malloc_ok (Some buf) count g = (0, Some buf)"
    by (simp add: DPPreMainGetSlowestDylibs_def Let_def)
  have 3: "\<exists>k out. DPPreMainGetSlowestDylibs malloc_ok (Some buf) count g = (k, Some out) \<and>
         unat k = (if malloc_ok then min (unat count) ?T else 0) \<and>
         set (take (unat k) out) \<subseteq> set (g_dylibLoadInfos g) \<and>
         (\<forall>i j. i < j \<and> j < unat k \<longrightarrow>
            loadDurationNanos (out ! j) \<le> loadDurationNanos (out ! i))"
    if nz: "count \<noteq> 0"
  proof (cases malloc_ok)
    case True
    show ?thesis
      using run [OF nz True] k sub sorted True by (intro exI [of _ ?k] exI [of _ ?out]) simp
  next
    case False
    show ?thesis
      using fail [OF nz False] False by (intro exI [of _ 0] exI [of _ buf]) simp
  qed
  have 1: "DPPreMainGetSlowestDylibs malloc_ok None count g = (0, None)"
    by (simp add: DPPreMainGetSlowestDylibs_def)
  have 2: "DPPreMainGetSlowestDylibs malloc_ok (Some buf) 0 g = (0, Some buf)"
    by (simp add: DPPreMainGetSlowestDylibs_def)
  show ?thesis
    using 1 2 3 by blast
qed

lemma three_records_slowest:
  "DPPreMainGetSlowestDylibs True (Some [took 0, took 0]) 2 three_records
     = (2, Some [took 9, took 7])"
  by (simp add: DPPreMainGetSlowestDylibs_def three_records_def g_zero_def capacity_def
      zero_DPPreMainData_def Let_def memcpy_def dp_compare_dylib_by_duration_def took_def)

theorem DPPreMainGetSlowestDylibs_result_witness:
  "DPPreMainGetSlowestDylibs True (Some [took 0, took 0]) 2 three_records
     = (2, Some [took 9, took 7]) \<and>
   min (unat (2 :: u32))
     (min (unat (dylibCount (g_preMainData three_records))) (capacity three_records)) = 2 \<and>
   loadDurationNanos ([took 9, took 7] ! 1) \<le> loadDurationNanos ([took 9, took 7] ! 0)"
  using DPPreMainGetSlowestDylibs_result
    [where malloc_ok = True and count = 2 and g = three_records
      and buf = "[took 0, took 0]"]
    three_records_slowest
  by (simp add: three_records_def g_zero_def capacity_def zero_DPPreMainData_def took_def)

text \<open>
  Claim C8 as stated fails when \<open>malloc\<close> returns \<open>NULL\<close>: with three records and a
  request for 2 the call returns 0, not \<open>min(2, 3) = 2\<close>.
\<close>

theorem DPPreMainGetSlowestDylibs_malloc_fails:
  "DPPreMainGetSlowestDylibs False (Some [took 0, took 0]) 2 three_records
     = (0, Some [took 0, took 0]) \<and>
   min (unat (2 :: u32))
     (min (unat (dylibCount (g_preMainData three_records))) (capacity three_records)) = 2"
  by (simp add: DPPreMainGetSlowestDylibs_def three_records_def g_zero_def capacity_def
      zero_DPPreMainData_def Let_def)

section \<open>The duration calculator on reachable states\<close>

lemma dp_calculate_durations_timestamps:
  assumes "dp_calculate_durations tbi now machNow d = Some d'"
  shows "timestamps d' = timestamps d"
proof (cases "mainExecutedMarked d \<and> mainExecutedMachTime (timestamps d) \<noteq> 0")
  case True
  then show ?thesis
    using dp_calculate_durations_blocks [OF assms] by blast
next
  case False
  then show ?thesis
    using assms by (auto simp: dp_calculate_durations_def)
qed

lemma nanos_or_zero_frame:
  assumes "(if c then DPMachTimeToNanos tbi t d else Some (0, d)) = Some (nanos, d')"
  shows "timestamps d' = timestamps d \<and> durations d' = durations d \<and>
         mainExecutedMarked d' = mainExecutedMarked d"
  using assms by (auto split: if_splits dest: DPMachTimeToNanos_Some)

lemma callback_frame:
  assumes run: "dp_dyld_image_added_callback tbi t path sl g = Some g'"
  shows "constructorMachTime (timestamps (g_preMainData g'))
           = constructorMachTime (timestamps (g_preMainData g)) \<and>
         processStartTimeUnixMicros (timestamps (g_preMainData g'))
           = processStartTimeUnixMicros (timestamps (g_preMainData g)) \<and>
         durations (g_preMainData g') = durations (g_preMainData g) \<and>
         mainExecutedMarked (g_preMainData g') = mainExecutedMarked (g_preMainData g)"
proof -
  consider (off) "\<not> dylibDetailEnabled (g_preMainData g)"
    | (full) "dylibDetailEnabled (g_preMainData g)" "capacity g \<le> unat (g_dylibIndex g)"
    | (recorded) "dylibDetailEnabled (g_preMainData g)"
        "\<not> capacity g \<le> unat (g_dylibIndex g)"
    by blast
  then show ?thesis
  proof cases
    case off
    then show ?thesis
      using run by (auto simp: dp_dyld_image_added_callback_def Let_def)
  next
    case full
    then show ?thesis
      using run by (auto simp: dp_dyld_image_added_callback_def Let_def)
  next
    case recorded
    then show ?thesis
      using run
      apply (auto simp: dp_dyld_image_added_callback_def Let_def split: option.splits
          dest!: nanos_or_zero_frame)
      apply (auto split: if_splits)
      done
  qed
qed

lemma calculator_pending_zero: "calculator_pending (g_zero n)"
  by (simp add: calculator_pending_def g_zero_def zero_DPPreMainData_def
      zero_DPPreMainTimestamps_def)

lemma calculator_pending_step:
  assumes inv: "calculator_pending g" and clock: "clock_started c"
    and step: "step tbi c g = Some g'"
  shows "calculator_pending g'"
proof (cases c)
  case (Premain_init t kinfo)
  then show ?thesis
    using inv clock step
    by (auto simp: calculator_pending_def dp_premain_init_def Let_def
        dp_initialize_timebase_def split: if_splits)
next
  case (Image_added t path sl)
  then have "dp_dyld_image_added_callback tbi t path sl g = Some g'"
    using step by simp
  from callback_frame [OF this] show ?thesis
    using inv by (simp add: calculator_pending_def)
next
  case (MarkMainExecuted t now machNow)
  then have mark: "DPPreMainMarkMainExecuted tbi t now machNow g = Some g'"
    using step by simp
  show ?thesis
  proof (cases "mainExecutedMarked (g_preMainData g)")
    case True
    then have "g' = g"
      using mark by (simp add: DPPreMainMarkMainExecuted_def)
    then show ?thesis
      using inv by simp
  next
    case False
    then obtain d' where calc: "dp_calculate_durations tbi now machNow
        ((g_preMainData g)\<lparr>timestamps := (timestamps (g_preMainData g))
            \<lparr>mainExecutedMachTime := t\<rparr>, mainExecutedMarked := True\<rparr>) = Some d'"
      and g': "g' = g\<lparr>g_preMainData := d'\<rparr>"
      using mark by (auto simp: DPPreMainMarkMainExecuted_def Let_def split: option.splits)
    have "mainExecutedMarked (g_preMainData g')"
      using mark by (rule DPPreMainMarkMainExecuted_marked)
    then show ?thesis
      using inv dp_calculate_durations_timestamps [OF calc]
      by (simp add: calculator_pending_def g')
  qed
next
  case (MarkObjCLoadStart t)
  then show ?thesis
    using inv step
    by (auto simp: calculator_pending_def DPPreMainMarkObjCLoadStart_def Let_def
        split: if_splits)
next
  case (MarkObjCLoadEnd t)
  then show ?thesis
    using inv step
    by (auto simp: calculator_pending_def DPPreMainMarkObjCLoadEnd_def Let_def
        split: if_splits)
next
  case (SetDylibDetailEnabled b)
  then show ?thesis
    using inv step
    by (auto simp: calculator_pending_def DPPreMainSetDylibDetailEnabled_def)
next
  case Reset
  then show ?thesis
    using step
    by (auto simp: calculator_pending_def DPPreMainReset_def dp_initialize_timebase_def
        zero_DPPreMainData_def zero_DPPreMainTimestamps_def)
qed

lemma calculator_pending_run:
  assumes "calculator_pending g" and "list_all clock_started calls"
    and "run tbi calls g = Some g'"
  shows "calculator_pending g'"
  using assms
proof (induction calls arbitrary: g)
  case Nil
  then show ?case by simp
next
  case (Cons c calls)
  then show ?case
    by (auto split: option.splits dest: calculator_pending_step)
qed

text \<open>
  Claim C7. Take any state reached from the zeroed statics by calls whose
  constructor read a non-zero clock, with the entry point not yet marked: there
  \<open>DPPreMainMarkMainExecuted\<close> runs the duration calculator on the recorded timestamps
  and its own reading \<open>mainMachTime\<close>. Each of the six duration fields whose inputs
  include a zero is 0 afterwards: \<open>constructor\<close> and \<open>main\<close> for \<open>totalPreMainMs\<close>;
  \<open>firstDyld\<close>, \<open>lastDyld\<close> and \<open>main\<close> for \<open>dylibLoadingMs\<close>; \<open>objcLoadStart\<close>,
  \<open>objcLoadEnd\<close> and \<open>main\<close> for \<open>objcLoadMs\<close>; \<open>constructor\<close>, \<open>firstDyld\<close> and
  \<open>main\<close> for \<open>staticInitializerMs\<close>; \<open>lastDyld\<close> and \<open>main\<close> for \<open>postDyldToMainMs\<close>;
  \<open>processStartTimeUnixMicros\<close>, \<open>constructor\<close> and \<open>main\<close> for
  \<open>estimatedKernelToConstructorMs\<close>.
\<close>

theorem durations_zero_without_inputs:
  assumes reach: "run tbi calls (g_zero n) = Some g"
    and clock: "list_all clock_started calls"
    and fresh: "\<not> mainExecutedMarked (g_preMainData g)"
    and mark: "DPPreMainMarkMainExecuted tbi mainMachTime now machNow g = Some g'"
  defines "ts \<equiv> timestamps (g_preMainData g)"
    and "dur \<equiv> durations (g_preMainData g')"
  shows "(constructorMachTime ts = 0 \<or> mainMachTime = 0 \<longrightarrow> totalPreMainMs dur = 0) \<and>
         (firstDyldCallbackMachTime ts = 0 \<or> lastDyldCallbackMachTime ts = 0
            \<or> mainMachTime = 0 \<longrightarrow> dylibLoadingMs dur = 0) \<and>
         (objcLoadStartMachTime ts = 0 \<or> objcLoadEndMachTime ts = 0
            \<or> mainMachTime = 0 \<longrightarrow> objcLoadMs dur = 0) \<and>
         (constructorMachTime ts = 0 \<or> firstDyldCallbackMachTime ts = 0
            \<or> mainMachTime = 0 \<longrightarrow> staticInitializerMs dur = 0) \<and>
         (lastDyldCallbackMachTime ts = 0 \<or> mainMachTime = 0
            \<longrightarrow> postDyldToMainMs dur = 0) \<and>
         (processStartTimeUnixMicros ts = 0 \<or> constructorMachTime ts = 0
            \<or> mainMachTime = 0 \<longrightarrow> estimatedKernelToConstructorMs dur = 0)"
proof -
  let ?d0 = "(g_preMainData g)\<lparr>timestamps := ts\<lparr>mainExecutedMachTime := mainMachTime\<rparr>,
                                 mainExecutedMarked := True\<rparr>"
  have inv: "calculator_pending g"
    using calculator_pending_zero clock reach by (rule calculator_pending_run)
  then have zero: "durations ?d0 = zero_DPPreMainDurations"
    and epoch: "constructorMachTime ts = 0 \<Longrightarrow> processStartTimeUnixMicros ts = 0"
    using fresh by (simp_all add: calculator_pending_def ts_def)
  from mark fresh obtain d' where calc: "dp_calculate_durations tbi now machNow ?d0 = Some d'"
    and g': "g_preMainData g' = d'"
    by (auto simp: DPPreMainMarkMainExecuted_def Let_def ts_def split: option.splits)
  note frame = dp_calculate_durations_frame [OF calc, unfolded zero]
  have fields: "totalPreMainMs zero_DPPreMainDurations = 0"
    "dylibLoadingMs zero_DPPreMainDurations = 0" "objcLoadMs zero_DPPreMainDurations = 0"
    "staticInitializerMs zero_DPPreMainDurations = 0"
    "postDyldToMainMs zero_DPPreMainDurations = 0"
    "estimatedKernelToConstructorMs zero_DPPreMainDurations = 0"
    by (simp_all add: zero_DPPreMainDurations_def)
  show ?thesis
    using frame epoch unfolding dur_def g' fields by auto
qed

text \<open>After constructor, one load event and a reset every timestamp is unset, and
  marking the entry point at tick 6000 leaves all six durations 0.\<close>

lemma after_reset_eval:
  "run tb_125_3 reset_calls (g_zero 2) = Some after_reset"
  by (simp add: after_reset_def reset_calls_def eval_defs DPPreMainReset_def)

theorem durations_zero_without_inputs_witness:
  "durations (g_preMainData (the (DPPreMainMarkMainExecuted tb_125_3 6000 epoch 0 after_reset)))
     = zero_DPPreMainDurations
   \<and> timestamps (g_preMainData after_reset) = zero_DPPreMainTimestamps"
proof -
  let ?r = "DPPreMainMarkMainExecuted tb_125_3 6000 epoch 0 after_reset"
  have st: "g_preMainData after_reset =
      zero_DPPreMainData\<lparr>dylibDetailEnabled := True, timebaseNumer := 125, timebaseDenom := 3\<rparr>"
    by (simp add: after_reset_def reset_calls_def eval_defs DPPreMainReset_def)
  have ts: "timestamps (g_preMainData after_reset) = zero_DPPreMainTimestamps"
    and fresh: "\<not> mainExecutedMarked (g_preMainData after_reset)"
    by (simp_all add: st zero_DPPreMainData_def)
  have "?r \<noteq> None"
    by (simp add: DPPreMainMarkMainExecuted_def dp_calculate_durations_def Let_def st
        zero_DPPreMainData_def zero_DPPreMainTimestamps_def)
  then have mark: "?r = Some (the ?r)"
    by simp
  have clock: "list_all clock_started reset_calls"
    by (simp add: reset_calls_def)
  have "durations (g_preMainData (the ?r)) = zero_DPPreMainDurations"
    using durations_zero_without_inputs
      [OF after_reset_eval clock fresh mark]
    by (cases "durations (g_preMainData (the ?r))")
      (simp add: ts zero_DPPreMainTimestamps_def zero_DPPreMainDurations_def)
  then show ?thesis
    using ts by simp
qed

end
